theory Spec2Isabelle
  imports Main "HOL-Library.Char_ord" "HOL-Library.List_Lexorder"
begin

section \<open>The request builder of \<^verbatim>\<open>request.go\<close>\<close>

text \<open>
  The package is a fluent builder over Go's \<^verbatim>\<open>net/http\<close> client. A Go \<^verbatim>\<open>string\<close> and a
  \<^verbatim>\<open>[]byte\<close> are both byte sequences, modelled as \<^typ>\<open>string\<close> (a list of 8-bit
  characters). A Go map is a partial function; a read of a missing key gives the zero
  value. An \<^verbatim>\<open>interface{}\<close> value is an \<open>option\<close>, \<open>None\<close> being Go's \<^verbatim>\<open>nil\<close>.
  The builders modelled are the ones \<^verbatim>\<open>New\<close> allocates: their two maps exist (are not
  the nil map), and the base URL and the client are not nil pointers.
\<close>

subsection \<open>Data of \<^verbatim>\<open>net/url\<close> and \<^verbatim>\<open>net/http\<close>\<close>

record Userinfo =
  username :: string
  password :: string
  passwordSet :: bool

record URL =
  Scheme :: string
  Opaque :: string
  User :: "Userinfo option"
  Host :: string
  Path :: string
  RawPath :: string
  OmitHost :: bool
  ForceQuery :: bool
  RawQuery :: string
  Fragment :: string
  RawFragment :: string

text \<open>\<^verbatim>\<open>url.Values\<close> and \<^verbatim>\<open>http.Header\<close> are both \<^verbatim>\<open>map[string][]string\<close>.\<close>

type_synonym Values = "string \<rightharpoonup> string list"
type_synonym Header = "string \<rightharpoonup> string list"

text \<open>Indexing a Go map: the zero value (the nil slice) for a missing key.\<close>

definition index :: "(string \<rightharpoonup> string list) \<Rightarrow> string \<Rightarrow> string list" where
  "index m k = (case m k of None \<Rightarrow> [] | Some vs \<Rightarrow> vs)"

datatype go_context = Ctx nat

text \<open>
  The errors of the libraries, one constructor for each kind the code below can return.
  \<open>UrlError\<close> is \<^verbatim>\<open>url.Error\<close>: the operation, the URL text and the wrapped error.
\<close>

datatype error =
    EscapeError string
  | InvalidHostError string
  | InvalidPort string
  | ErrorString string
  | UrlError string string error
  | InvalidMethod string
  | MarshalError string
  | TransportError string
  | DecodeError string

record http_request =
  req_ctx :: go_context
  req_Method :: string
  req_URL :: URL
  req_Header :: Header
  req_Body :: string
  req_ContentLength :: int
  req_Host :: string

record http_response =
  resp_StatusCode :: int
  resp_Body :: string

subsection \<open>Strings\<close>

text \<open>
  \<^verbatim>\<open>strings.Cut(s, sep)\<close> for a one-byte separator: the text before and after the first
  \<open>sep\<close> and whether it was found; without one, all of \<open>s\<close> and the empty string.
\<close>

definition Cut :: "string \<Rightarrow> char \<Rightarrow> string \<times> string \<times> bool" where
  "Cut s sep =
     (if sep \<in> set s then (takeWhile (\<lambda>c. c \<noteq> sep) s, tl (dropWhile (\<lambda>c. c \<noteq> sep) s), True)
      else (s, [], False))"

text \<open>\<^verbatim>\<open>strings.LastIndex(s, sep)\<close> for a one-byte separator, \<open>None\<close> for Go's \<open>-1\<close>.\<close>

fun LastIndex_from :: "nat \<Rightarrow> string \<Rightarrow> char \<Rightarrow> nat option \<Rightarrow> nat option" where
  "LastIndex_from i [] sep found = found"
| "LastIndex_from i (c # s) sep found =
     LastIndex_from (Suc i) s sep (if c = sep then Some i else found)"

definition LastIndex :: "string \<Rightarrow> char \<Rightarrow> nat option" where
  "LastIndex s sep = LastIndex_from 0 s sep None"

text \<open>\<^verbatim>\<open>strings.Index(s, sub)\<close>: where \<open>sub\<close> first occurs in \<open>s\<close>.\<close>

fun Index_from :: "nat \<Rightarrow> string \<Rightarrow> string \<Rightarrow> nat option" where
  "Index_from i [] sub = (if sub = [] then Some i else None)"
| "Index_from i (c # s) sub =
     (if take (length sub) (c # s) = sub then Some i else Index_from (Suc i) s sub)"

definition Index :: "string \<Rightarrow> string \<Rightarrow> nat option" where
  "Index s sub = Index_from 0 s sub"

definition HasPrefix :: "string \<Rightarrow> string \<Rightarrow> bool" where
  "HasPrefix s p = (take (length p) s = p)"

definition HasSuffix :: "string \<Rightarrow> string \<Rightarrow> bool" where
  "HasSuffix s p = (length p \<le> length s \<and> drop (length s - length p) s = p)"

text \<open>\<^verbatim>\<open>strings.Split(s, "/")\<close>: the pieces between the separators, at least one.\<close>

fun Split :: "string \<Rightarrow> char \<Rightarrow> string list" where
  "Split [] sep = [[]]"
| "Split (c # s) sep =
     (if c = sep then [] # Split s sep
      else (case Split s sep of [] \<Rightarrow> [[c]] | p # ps \<Rightarrow> (c # p) # ps))"

definition is_lower :: "char \<Rightarrow> bool" where
  "is_lower c = (CHR ''a'' \<le> c \<and> c \<le> CHR ''z'')"

definition is_upper :: "char \<Rightarrow> bool" where
  "is_upper c = (CHR ''A'' \<le> c \<and> c \<le> CHR ''Z'')"

definition is_digit :: "char \<Rightarrow> bool" where
  "is_digit c = (CHR ''0'' \<le> c \<and> c \<le> CHR ''9'')"

text \<open>ASCII case mapping of one byte, as \<^verbatim>\<open>strings.ToLower\<close> does on ASCII text.\<close>

definition to_lower :: "char \<Rightarrow> char" where
  "to_lower c = (if is_upper c then char_of (of_char c + (32::nat)) else c)"

definition to_upper :: "char \<Rightarrow> char" where
  "to_upper c = (if is_lower c then char_of (of_char c - (32::nat)) else c)"

text \<open>\<^verbatim>\<open>strconv.Itoa\<close>: the decimal digits of an integer, with a minus sign below zero.\<close>

fun digits :: "nat \<Rightarrow> string" where
  "digits n = (if n < 10 then [char_of (48 + n)] else digits (n div 10) @ [char_of (48 + n mod 10)])"

definition Itoa :: "int \<Rightarrow> string" where
  "Itoa i = (if i < 0 then CHR ''-'' # digits (nat (- i)) else digits (nat i))"

subsection \<open>\<^verbatim>\<open>net/url\<close>: escaping\<close>

text \<open>
  The functions of Go's \<^verbatim>\<open>net/url\<close> that \<^verbatim>\<open>request.go\<close> calls, written out after the
  library's source (Go 1.21): the builder's behaviour on query strings and paths is
  theirs.
\<close>

datatype encoding =
    encodePath
  | encodePathSegment
  | encodeHost
  | encodeZone
  | encodeUserPassword
  | encodeQueryComponent
  | encodeFragment

definition ishex :: "char \<Rightarrow> bool" where
  "ishex c = (is_digit c \<or> (CHR ''a'' \<le> c \<and> c \<le> CHR ''f'') \<or> (CHR ''A'' \<le> c \<and> c \<le> CHR ''F''))"

definition unhex :: "char \<Rightarrow> nat" where
  "unhex c =
     (if is_digit c then of_char c - 48
      else if CHR ''a'' \<le> c \<and> c \<le> CHR ''f'' then of_char c - 97 + 10
      else if CHR ''A'' \<le> c \<and> c \<le> CHR ''F'' then of_char c - 65 + 10
      else 0)"

definition upperhex :: string where
  "upperhex = ''0123456789ABCDEF''"

definition shouldEscape :: "char \<Rightarrow> encoding \<Rightarrow> bool" where
  "shouldEscape c mode =
     (if is_lower c \<or> is_upper c \<or> is_digit c then False
      else if (mode = encodeHost \<or> mode = encodeZone)
              \<and> c \<in> set (''!$&'' @ [CHR 0x27] @ ''()*+,;=:[]<>'' @ [CHR 0x22]) then False
      else if c \<in> set ''-_.~'' then False
      else if c \<in> set ''$&+,/:;=?@'' then
        (case mode of
           encodePath \<Rightarrow> c = CHR ''?''
         | encodePathSegment \<Rightarrow> c = CHR ''/'' \<or> c = CHR '';'' \<or> c = CHR '','' \<or> c = CHR ''?''
         | encodeUserPassword \<Rightarrow> c = CHR ''@'' \<or> c = CHR ''/'' \<or> c = CHR ''?'' \<or> c = CHR '':''
         | encodeQueryComponent \<Rightarrow> True
         | encodeFragment \<Rightarrow> False
         | _ \<Rightarrow> True)
      else if mode = encodeFragment \<and> c \<in> set ''!()*'' then False
      else True)"

text \<open>
  \<^verbatim>\<open>escape\<close>. The library counts first and returns \<open>s\<close> itself when nothing needs
  escaping; the second pass below gives the same string in that case.
\<close>

fun escape :: "string \<Rightarrow> encoding \<Rightarrow> string" where
  "escape [] mode = []"
| "escape (c # s) mode =
     (if shouldEscape c mode then
        (if c = CHR '' '' \<and> mode = encodeQueryComponent then CHR ''+'' # escape s mode
         else CHR ''%'' # upperhex ! (of_char c div 16) # upperhex ! (of_char c mod 16)
                # escape s mode)
      else c # escape s mode)"

text \<open>
  \<^verbatim>\<open>unescape\<close>, first pass: every \<open>%\<close> must start a well-formed escape; the error
  carries at most three bytes from the offending \<open>%\<close> on.
\<close>

fun unescape_check :: "string \<Rightarrow> encoding \<Rightarrow> error option" where
  "unescape_check [] mode = None"
| "unescape_check (c # s) mode =
     (if c = CHR ''%'' then
        (case s of
           a # b # s' \<Rightarrow>
             if \<not> ishex a \<or> \<not> ishex b then Some (EscapeError [c, a, b])
             else if mode = encodeHost \<and> unhex a < 8 \<and> [c, a, b] \<noteq> ''%25''
               then Some (EscapeError [c, a, b])
             else if mode = encodeZone \<and> [c, a, b] \<noteq> ''%25''
                     \<and> char_of (unhex a * 16 + unhex b) \<noteq> CHR '' ''
                     \<and> shouldEscape (char_of (unhex a * 16 + unhex b)) encodeHost
               then Some (EscapeError [c, a, b])
             else unescape_check s' mode
         | _ \<Rightarrow> Some (EscapeError (c # s)))
      else if c = CHR ''+'' then unescape_check s mode
      else if (mode = encodeHost \<or> mode = encodeZone) \<and> (of_char c :: nat) < 128
              \<and> shouldEscape c encodeHost
        then Some (InvalidHostError [c])
      else unescape_check s mode)"

text \<open>Second pass, on a string the first pass accepted.\<close>

fun unescape_build :: "string \<Rightarrow> encoding \<Rightarrow> string" where
  "unescape_build [] mode = []"
| "unescape_build (c # s) mode =
     (if c = CHR ''%'' then
        (case s of
           a # b # s' \<Rightarrow> char_of (unhex a * 16 + unhex b) # unescape_build s' mode
         | _ \<Rightarrow> [])
      else if c = CHR ''+'' then
        (if mode = encodeQueryComponent then CHR '' '' else CHR ''+'') # unescape_build s mode
      else c # unescape_build s mode)"

definition unescape :: "string \<Rightarrow> encoding \<Rightarrow> error + string" where
  "unescape s mode =
     (case unescape_check s mode of Some e \<Rightarrow> Inl e | None \<Rightarrow> Inr (unescape_build s mode))"

definition QueryEscape :: "string \<Rightarrow> string" where
  "QueryEscape s = escape s encodeQueryComponent"

definition QueryUnescape :: "string \<Rightarrow> error + string" where
  "QueryUnescape s = unescape s encodeQueryComponent"

text \<open>
  \<^verbatim>\<open>Values.Encode\<close>: \<open>key=value\<close> for every value of every key, keys in ascending
  order, both sides escaped, joined by \<open>&\<close>. Go writes the separator whenever the buffer
  is not empty; a pair is never empty (it holds \<open>=\<close>), so that is before every pair but
  the first.
\<close>

fun join_amp :: "string list \<Rightarrow> string" where
  "join_amp [] = []"
| "join_amp [p] = p"
| "join_amp (p # ps) = p @ CHR ''&'' # join_amp ps"

definition Encode_pairs :: "Values \<Rightarrow> string list" where
  "Encode_pairs v =
     concat (map (\<lambda>k. map (\<lambda>x. QueryEscape k @ CHR ''='' # QueryEscape x) (index v k))
       (sorted_list_of_set (dom v)))"

definition Encode :: "Values \<Rightarrow> string" where
  "Encode v = (if dom v = {} then [] else join_amp (Encode_pairs v))"

text \<open>
  For comparison: the same walk over the multimap without any escaping, that is, the
  pairs \<open>key=value\<close> as they are, joined by \<open>&\<close>.
\<close>

definition kv_pairs :: "Values \<Rightarrow> (string \<times> string) list" where
  "kv_pairs v =
     concat (map (\<lambda>k. map (\<lambda>x. (k, x)) (index v k)) (sorted_list_of_set (dom v)))"

definition raw_pairs :: "Values \<Rightarrow> string list" where
  "raw_pairs v =
     concat (map (\<lambda>k. map (\<lambda>x. k @ CHR ''='' # x) (index v k)) (sorted_list_of_set (dom v)))"

definition raw_query :: "Values \<Rightarrow> string" where
  "raw_query v = join_amp (raw_pairs v)"

subsection \<open>\<^verbatim>\<open>net/url\<close>: parsing\<close>

definition URL_zero :: URL where
  "URL_zero =
     \<lparr> Scheme = [], Opaque = [], User = None, Host = [], Path = [], RawPath = [],
       OmitHost = False, ForceQuery = False, RawQuery = [], Fragment = [], RawFragment = [] \<rparr>"

definition stringContainsCTLByte :: "string \<Rightarrow> bool" where
  "stringContainsCTLByte s = list_ex (\<lambda>b. b < CHR '' '' \<or> b = CHR 0x7F) s"

text \<open>
  \<^verbatim>\<open>getScheme\<close> walks \<open>rawURL\<close> by index; \<open>pre\<close> is the text before the index, so
  \<open>pre = []\<close> is the library's \<open>i == 0\<close>.
\<close>

fun getScheme_scan :: "string \<Rightarrow> string \<Rightarrow> string \<Rightarrow> error + string \<times> string" where
  "getScheme_scan rawURL pre [] = Inr ([], rawURL)"
| "getScheme_scan rawURL pre (c # s) =
     (if is_lower c \<or> is_upper c then getScheme_scan rawURL (pre @ [c]) s
      else if is_digit c \<or> c = CHR ''+'' \<or> c = CHR ''-'' \<or> c = CHR ''.'' then
        (if pre = [] then Inr ([], rawURL) else getScheme_scan rawURL (pre @ [c]) s)
      else if c = CHR '':'' then
        (if pre = [] then Inl (ErrorString ''missing protocol scheme'') else Inr (pre, s))
      else Inr ([], rawURL))"

definition getScheme :: "string \<Rightarrow> error + string \<times> string" where
  "getScheme rawURL = getScheme_scan rawURL [] rawURL"

definition validOptionalPort :: "string \<Rightarrow> bool" where
  "validOptionalPort port =
     (case port of [] \<Rightarrow> True | c # ds \<Rightarrow> c = CHR '':'' \<and> list_all is_digit ds)"

definition validUserinfo :: "string \<Rightarrow> bool" where
  "validUserinfo s =
     list_all (\<lambda>r. is_upper r \<or> is_lower r \<or> is_digit r
                  \<or> r \<in> set (''-._:~!$&'' @ [CHR 0x27] @ ''()*+,;=%@'')) s"

definition parseHost :: "string \<Rightarrow> error + string" where
  "parseHost host =
     (if HasPrefix host ''['' then
        (case LastIndex host (CHR '']'') of
           None \<Rightarrow> Inl (ErrorString (''missing '' @ [CHR 0x27] @ '']'' @ [CHR 0x27] @ '' in host''))
         | Some i \<Rightarrow>
             if \<not> validOptionalPort (drop (Suc i) host) then Inl (InvalidPort (drop (Suc i) host))
             else
               (case Index (take i host) ''%25'' of
                  Some zone \<Rightarrow>
                    (case unescape (take zone host) encodeHost of
                       Inl e \<Rightarrow> Inl e
                     | Inr host1 \<Rightarrow>
                         (case unescape (drop zone (take i host)) encodeZone of
                            Inl e \<Rightarrow> Inl e
                          | Inr host2 \<Rightarrow>
                              (case unescape (drop i host) encodeHost of
                                 Inl e \<Rightarrow> Inl e
                               | Inr host3 \<Rightarrow> Inr (host1 @ host2 @ host3))))
                | None \<Rightarrow> unescape host encodeHost))
      else
        (case LastIndex host (CHR '':'') of
           Some i \<Rightarrow>
             if \<not> validOptionalPort (drop i host) then Inl (InvalidPort (drop i host))
             else unescape host encodeHost
         | None \<Rightarrow> unescape host encodeHost))"

definition parseAuthority :: "string \<Rightarrow> error + Userinfo option \<times> string" where
  "parseAuthority authority =
     (case LastIndex authority (CHR ''@'') of
        None \<Rightarrow>
          (case parseHost authority of Inl e \<Rightarrow> Inl e | Inr host \<Rightarrow> Inr (None, host))
      | Some i \<Rightarrow>
          (case parseHost (drop (Suc i) authority) of
             Inl e \<Rightarrow> Inl e
           | Inr host \<Rightarrow>
               let userinfo = take i authority in
               if \<not> validUserinfo userinfo then Inl (ErrorString ''net/url: invalid userinfo'')
               else if CHR '':'' \<notin> set userinfo then
                 (case unescape userinfo encodeUserPassword of
                    Inl e \<Rightarrow> Inl e
                  | Inr name \<Rightarrow>
                      Inr (Some \<lparr>username = name, password = [], passwordSet = False\<rparr>, host))
               else
                 (case unescape (fst (Cut userinfo (CHR '':''))) encodeUserPassword of
                    Inl e \<Rightarrow> Inl e
                  | Inr name \<Rightarrow>
                      (case unescape (fst (snd (Cut userinfo (CHR '':'')))) encodeUserPassword of
                         Inl e \<Rightarrow> Inl e
                       | Inr pw \<Rightarrow>
                           Inr (Some \<lparr>username = name, password = pw, passwordSet = True\<rparr>,
                                host)))))"

definition setPath :: "URL \<Rightarrow> string \<Rightarrow> error + URL" where
  "setPath u p =
     (case unescape p encodePath of
        Inl e \<Rightarrow> Inl e
      | Inr path \<Rightarrow>
          Inr (u\<lparr>Path := path, RawPath := (if p = escape path encodePath then [] else p)\<rparr>))"

definition setFragment :: "URL \<Rightarrow> string \<Rightarrow> error + URL" where
  "setFragment u f =
     (case unescape f encodeFragment of
        Inl e \<Rightarrow> Inl e
      | Inr frag \<Rightarrow>
          Inr (u\<lparr>Fragment := frag,
                RawFragment := (if f = escape frag encodeFragment then [] else f)\<rparr>))"

definition validEncoded :: "string \<Rightarrow> encoding \<Rightarrow> bool" where
  "validEncoded s mode =
     list_all (\<lambda>c. c \<in> set (''!$&'' @ [CHR 0x27] @ ''()*+,;=:@[]%'') \<or> \<not> shouldEscape c mode) s"

definition EscapedPath :: "URL \<Rightarrow> string" where
  "EscapedPath u =
     (if RawPath u \<noteq> [] \<and> validEncoded (RawPath u) encodePath
         \<and> unescape (RawPath u) encodePath = Inr (Path u) then RawPath u
      else if Path u = ''*'' then ''*''
      else escape (Path u) encodePath)"

definition EscapedFragment :: "URL \<Rightarrow> string" where
  "EscapedFragment u =
     (if RawFragment u \<noteq> [] \<and> validEncoded (RawFragment u) encodeFragment
         \<and> unescape (RawFragment u) encodeFragment = Inr (Fragment u) then RawFragment u
      else escape (Fragment u) encodeFragment)"

text \<open>The second half of \<^verbatim>\<open>parse\<close>: the authority, then the path.\<close>

definition parse_authority_path :: "URL \<Rightarrow> string \<Rightarrow> bool \<Rightarrow> error + URL" where
  "parse_authority_path u rest viaRequest =
     (if (Scheme u \<noteq> [] \<or> (\<not> viaRequest \<and> \<not> HasPrefix rest ''///'')) \<and> HasPrefix rest ''//'' then
        (let auth = drop 2 rest;
             authority = (case Index auth ''/'' of Some i \<Rightarrow> take i auth | None \<Rightarrow> auth);
             rest' = (case Index auth ''/'' of Some i \<Rightarrow> drop i auth | None \<Rightarrow> [])
         in case parseAuthority authority of
              Inl e \<Rightarrow> Inl e
            | Inr (user, host) \<Rightarrow> setPath (u\<lparr>User := user, Host := host\<rparr>) rest')
      else if Scheme u \<noteq> [] \<and> HasPrefix rest ''/'' then setPath (u\<lparr>OmitHost := True\<rparr>) rest
      else setPath u rest)"

definition parse :: "string \<Rightarrow> bool \<Rightarrow> error + URL" where
  "parse rawURL viaRequest =
     (if stringContainsCTLByte rawURL then
        Inl (ErrorString ''net/url: invalid control character in URL'')
      else if rawURL = [] \<and> viaRequest then Inl (ErrorString ''empty url'')
      else if rawURL = ''*'' then Inr (URL_zero\<lparr>Path := ''*''\<rparr>)
      else
        (case getScheme rawURL of
           Inl e \<Rightarrow> Inl e
         | Inr (scheme, rest0) \<Rightarrow>
             let u0 = URL_zero\<lparr>Scheme := map to_lower scheme\<rparr>;
                 force = (HasSuffix rest0 ''?'' \<and> count_list rest0 (CHR ''?'') = 1);
                 rest = (if force then butlast rest0 else fst (Cut rest0 (CHR ''?'')));
                 u = (if force then u0\<lparr>ForceQuery := True\<rparr>
                      else u0\<lparr>RawQuery := fst (snd (Cut rest0 (CHR ''?'')))\<rparr>)
             in if \<not> HasPrefix rest ''/'' \<and> Scheme u \<noteq> [] then Inr (u\<lparr>Opaque := rest\<rparr>)
                else if \<not> HasPrefix rest ''/'' \<and> viaRequest then
                  Inl (ErrorString ''invalid URI for request'')
                else if \<not> HasPrefix rest ''/'' \<and> CHR '':'' \<in> set (fst (Cut rest (CHR ''/''))) then
                  Inl (ErrorString ''first path segment in URL cannot contain colon'')
                else parse_authority_path u rest viaRequest))"

definition Parse :: "string \<Rightarrow> error + URL" where
  "Parse rawURL =
     (let u = fst (Cut rawURL (CHR ''#'')); frag = fst (snd (Cut rawURL (CHR ''#''))) in
      case parse u False of
        Inl e \<Rightarrow> Inl (UrlError ''parse'' u e)
      | Inr url' \<Rightarrow>
          if frag = [] then Inr url'
          else (case setFragment url' frag of
                  Inl e \<Rightarrow> Inl (UrlError ''parse'' rawURL e)
                | Inr url'' \<Rightarrow> Inr url''))"

subsection \<open>\<^verbatim>\<open>net/url\<close>: rendering and reference resolution\<close>

definition Userinfo_String :: "Userinfo option \<Rightarrow> string" where
  "Userinfo_String ui =
     (case ui of
        None \<Rightarrow> []
      | Some u \<Rightarrow>
          escape (username u) encodeUserPassword
          @ (if passwordSet u then CHR '':'' # escape (password u) encodeUserPassword else []))"

text \<open>
  \<^verbatim>\<open>URL.String\<close>, in the three stretches in which it fills its buffer: scheme with
  authority (or the opaque text), the path, and the query with the fragment.
\<close>

definition String_authority :: "URL \<Rightarrow> string" where
  "String_authority u =
     (if Scheme u \<noteq> [] \<or> Host u \<noteq> [] \<or> User u \<noteq> None then
        (if OmitHost u \<and> Host u = [] \<and> User u = None then []
         else (if Host u \<noteq> [] \<or> Path u \<noteq> [] \<or> User u \<noteq> None then ''//'' else [])
              @ (case User u of None \<Rightarrow> [] | Some ui \<Rightarrow> Userinfo_String (Some ui) @ ''@'')
              @ (if Host u \<noteq> [] then escape (Host u) encodeHost else []))
      else [])"

definition String_path :: "URL \<Rightarrow> string \<Rightarrow> string" where
  "String_path u buf =
     (let path = EscapedPath u;
          buf1 = (if path \<noteq> [] \<and> hd path \<noteq> CHR ''/'' \<and> Host u \<noteq> [] then buf @ ''/'' else buf);
          buf2 = (if buf1 = [] \<and> CHR '':'' \<in> set (fst (Cut path (CHR ''/''))) then ''./'' else buf1)
      in buf2 @ path)"

definition URL_String :: "URL \<Rightarrow> string" where
  "URL_String u =
     (let buf0 = (if Scheme u \<noteq> [] then Scheme u @ '':'' else []);
          buf1 = (if Opaque u \<noteq> [] then buf0 @ Opaque u
                  else String_path u (buf0 @ String_authority u))
      in buf1
         @ (if ForceQuery u \<or> RawQuery u \<noteq> [] then CHR ''?'' # RawQuery u else [])
         @ (if Fragment u \<noteq> [] then CHR ''#'' # EscapedFragment u else []))"

text \<open>
  The loop of \<^verbatim>\<open>resolvePath\<close> over the path elements. \<open>dst\<close> is the buffer, which
  always starts with the slash written before the loop.
\<close>

fun resolvePath_loop :: "string list \<Rightarrow> string \<Rightarrow> bool \<Rightarrow> string" where
  "resolvePath_loop [] dst first = dst"
| "resolvePath_loop (elem # elems) dst first =
     (if elem = ''.'' then resolvePath_loop elems dst False
      else if elem = ''..'' then
        (case LastIndex (tl dst) (CHR ''/'') of
           None \<Rightarrow> resolvePath_loop elems ''/'' True
         | Some i \<Rightarrow> resolvePath_loop elems (CHR ''/'' # take i (tl dst)) first)
      else resolvePath_loop elems (dst @ (if first then [] else ''/'') @ elem) False)"

definition resolvePath :: "string \<Rightarrow> string \<Rightarrow> string" where
  "resolvePath base ref =
     (let full =
            (if ref = [] then base
             else if hd ref \<noteq> CHR ''/'' then
               (case LastIndex base (CHR ''/'') of None \<Rightarrow> ref | Some i \<Rightarrow> take (Suc i) base @ ref)
             else ref)
      in if full = [] then []
         else
           (let elems = Split full (CHR ''/'');
                dst = resolvePath_loop elems ''/'' True;
                r = (if last elems = ''.'' \<or> last elems = ''..'' then dst @ ''/'' else dst)
            in if length r > 1 \<and> r ! 1 = CHR ''/'' then tl r else r))"

text \<open>\<^verbatim>\<open>ResolveReference\<close> drops the error of \<^verbatim>\<open>setPath\<close>: the URL then keeps its path.\<close>

definition setPath_ignore :: "URL \<Rightarrow> string \<Rightarrow> URL" where
  "setPath_ignore u p = (case setPath u p of Inl e \<Rightarrow> u | Inr u' \<Rightarrow> u')"

text \<open>
  For the statements below: the rendering of a URL up to, and without, its query and
  fragment.
\<close>

definition String_head :: "URL \<Rightarrow> string" where
  "String_head u = URL_String (u\<lparr>ForceQuery := False, RawQuery := [], Fragment := []\<rparr>)"

definition ResolveReference :: "URL \<Rightarrow> URL \<Rightarrow> URL" where
  "ResolveReference u ref =
     (let url0 = (if Scheme ref = [] then ref\<lparr>Scheme := Scheme u\<rparr> else ref) in
      if Scheme ref \<noteq> [] \<or> Host ref \<noteq> [] \<or> User ref \<noteq> None then
        setPath_ignore url0 (resolvePath (EscapedPath ref) [])
      else if Opaque ref \<noteq> [] then url0\<lparr>User := None, Host := [], Path := []\<rparr>
      else
        (let url1 =
               (if Path ref = [] \<and> \<not> ForceQuery ref \<and> RawQuery ref = [] then
                  (if Fragment ref = [] then
                     url0\<lparr>RawQuery := RawQuery u, Fragment := Fragment u,
                          RawFragment := RawFragment u\<rparr>
                   else url0\<lparr>RawQuery := RawQuery u\<rparr>)
                else url0)
         in if Path ref = [] \<and> Opaque u \<noteq> [] then
              url1\<lparr>Opaque := Opaque u, User := None, Host := [], Path := []\<rparr>
            else
              setPath_ignore (url1\<lparr>Host := Host u, User := User u\<rparr>)
                (resolvePath (EscapedPath u) (EscapedPath ref))))"

subsection \<open>\<^verbatim>\<open>net/http\<close>: headers and request construction\<close>

text \<open>The token bytes of RFC 7230, as \<^verbatim>\<open>net/textproto\<close> and \<^verbatim>\<open>httpguts\<close> list them.\<close>

definition validHeaderFieldByte :: "char \<Rightarrow> bool" where
  "validHeaderFieldByte c =
     (is_lower c \<or> is_upper c \<or> is_digit c
      \<or> c \<in> set (''!#$%&'' @ [CHR 0x27] @ ''*+-.^_'' @ [CHR 0x60] @ ''|~''))"

text \<open>
  \<^verbatim>\<open>CanonicalMIMEHeaderKey\<close>. The quick check stops at the first byte that is no token
  byte (the key is returned as it is) or that has the wrong case (the slow path runs).
  The slow path gives up on any byte that is no token byte, the space included, and
  otherwise writes upper case at the start and after each hyphen, lower case elsewhere.
\<close>

fun wrong_case :: "string \<Rightarrow> bool \<Rightarrow> bool" where
  "wrong_case [] upper = False"
| "wrong_case (c # s) upper =
     (if \<not> validHeaderFieldByte c then False
      else if upper \<and> is_lower c then True
      else if \<not> upper \<and> is_upper c then True
      else wrong_case s (c = CHR ''-''))"

fun canonical_case :: "string \<Rightarrow> bool \<Rightarrow> string" where
  "canonical_case [] upper = []"
| "canonical_case (c # s) upper =
     (let c' = (if upper \<and> is_lower c then to_upper c
                else if \<not> upper \<and> is_upper c then to_lower c
                else c)
      in c' # canonical_case s (c' = CHR ''-''))"

definition canonicalMIMEHeaderKey :: "string \<Rightarrow> string" where
  "canonicalMIMEHeaderKey a =
     (if list_all validHeaderFieldByte a then canonical_case a True else a)"

definition CanonicalMIMEHeaderKey :: "string \<Rightarrow> string" where
  "CanonicalMIMEHeaderKey s = (if wrong_case s True then canonicalMIMEHeaderKey s else s)"

definition Header_Set :: "Header \<Rightarrow> string \<Rightarrow> string \<Rightarrow> Header" where
  "Header_Set h key val = h(CanonicalMIMEHeaderKey key \<mapsto> [val])"

definition Header_Add :: "Header \<Rightarrow> string \<Rightarrow> string \<Rightarrow> Header" where
  "Header_Add h key val =
     h(CanonicalMIMEHeaderKey key \<mapsto> index h (CanonicalMIMEHeaderKey key) @ [val])"

definition validMethod :: "string \<Rightarrow> bool" where
  "validMethod method = (method \<noteq> [] \<and> list_all validHeaderFieldByte method)"

definition removeEmptyPort :: "string \<Rightarrow> string" where
  "removeEmptyPort host =
     (let hasPort =
            (case (LastIndex host (CHR '':''), LastIndex host (CHR '']'')) of
               (Some i, Some j) \<Rightarrow> i > j
             | (Some i, None) \<Rightarrow> True
             | (None, _) \<Rightarrow> False)
      in if hasPort \<and> HasSuffix host '':'' then butlast host else host)"

text \<open>
  \<^verbatim>\<open>http.NewRequestWithContext\<close> for a body read from a byte slice. The context is an
  interface value, so the caller can pass \<^verbatim>\<open>nil\<close> (\<open>None\<close>).
\<close>

definition NewRequestWithContext ::
  "go_context option \<Rightarrow> string \<Rightarrow> string \<Rightarrow> string \<Rightarrow> error + http_request" where
  "NewRequestWithContext ctx method0 urlStr bodyRd =
     (let method = (if method0 = [] then ''GET'' else method0) in
      if \<not> validMethod method then Inl (InvalidMethod method)
      else
        (case ctx of
           None \<Rightarrow> Inl (ErrorString ''net/http: nil Context'')
         | Some c \<Rightarrow>
             (case Parse urlStr of
                Inl e \<Rightarrow> Inl e
              | Inr u \<Rightarrow>
                  Inr \<lparr> req_ctx = c, req_Method = method,
                        req_URL = u\<lparr>Host := removeEmptyPort (Host u)\<rparr>,
                        req_Header = Map.empty, req_Body = bodyRd,
                        req_ContentLength = int (length bodyRd),
                        req_Host = removeEmptyPort (Host u) \<rparr>)))"

subsection \<open>The builder\<close>

text \<open>
  The client is the caller's transport. It is a function of a state of the outside
  world \<open>'w\<close> (the network, or a stub that records its calls) and of the request, and
  gives the response or the error together with the new state.
\<close>

record ('v, 't, 'w) Request =
  client :: "'w \<Rightarrow> http_request \<Rightarrow> (error + http_response) \<times> 'w"
  url :: URL
  headers :: "string \<rightharpoonup> string"
  queryParams :: Values
  body :: "'v option"
  bodyBytes :: string
  result :: "'t option"

definition New ::
  "URL \<Rightarrow> ('w \<Rightarrow> http_request \<Rightarrow> (error + http_response) \<times> 'w) \<Rightarrow> string \<Rightarrow> ('v, 't, 'w) Request" where
  "New requestURL httpClient accepts =
     \<lparr> client = httpClient, url = requestURL,
       headers = [''Accept'' \<mapsto> accepts],
       queryParams = Map.empty, body = None, bodyBytes = [], result = None \<rparr>"

definition WithHeader :: "('v, 't, 'w) Request \<Rightarrow> string \<Rightarrow> string \<Rightarrow> ('v, 't, 'w) Request" where
  "WithHeader r key val = r\<lparr>headers := (headers r)(key \<mapsto> val)\<rparr>"

text \<open>\<^verbatim>\<open>Values.Add\<close>: \<^verbatim>\<open>v[key] = append(v[key], value)\<close>.\<close>

definition Values_Add :: "Values \<Rightarrow> string \<Rightarrow> string \<Rightarrow> Values" where
  "Values_Add v key val = v(key \<mapsto> index v key @ [val])"

definition WithQueryParam :: "('v, 't, 'w) Request \<Rightarrow> string \<Rightarrow> string \<Rightarrow> ('v, 't, 'w) Request" where
  "WithQueryParam r key val = r\<lparr>queryParams := Values_Add (queryParams r) key val\<rparr>"

definition WithJSONBody :: "('v, 't, 'w) Request \<Rightarrow> 'v option \<Rightarrow> ('v, 't, 'w) Request" where
  "WithJSONBody r b =
     r\<lparr>headers := (headers r)(''Content-Type'' \<mapsto> ''application/json''), body := b\<rparr>"

definition WithBodyBytes :: "('v, 't, 'w) Request \<Rightarrow> string \<Rightarrow> ('v, 't, 'w) Request" where
  "WithBodyBytes r b = r\<lparr>bodyBytes := b\<rparr>"

definition WithAuthorization :: "('v, 't, 'w) Request \<Rightarrow> string \<Rightarrow> ('v, 't, 'w) Request" where
  "WithAuthorization r token =
     r\<lparr>headers := (headers r)(''Authorization'' \<mapsto> ''Bearer '' @ token)\<rparr>"

text \<open>
  \<^verbatim>\<open>for key, value := range m { dst[key] = value }\<close>: one assignment for each key of
  \<open>m\<close>, in the order \<open>ks\<close> in which the runtime hands the keys out.
\<close>

fun range_assign :: "'k list \<Rightarrow> ('k \<rightharpoonup> 'a) \<Rightarrow> ('k \<rightharpoonup> 'a) \<Rightarrow> ('k \<rightharpoonup> 'a)" where
  "range_assign [] m dst = dst"
| "range_assign (k # ks) m dst =
     range_assign ks m (case m k of None \<Rightarrow> dst | Some v \<Rightarrow> dst(k \<mapsto> v))"

text \<open>
  Go leaves the order of a \<^verbatim>\<open>range\<close> over a map open. The two bulk merges assign to
  pairwise different keys, so every order gives the same map (\<open>range_assign_map_add\<close>
  below); the model walks the keys in ascending order.
\<close>

definition WithHeaders :: "('v, 't, 'w) Request \<Rightarrow> (string \<rightharpoonup> string) \<Rightarrow> ('v, 't, 'w) Request" where
  "WithHeaders r hs =
     r\<lparr>headers := range_assign (sorted_list_of_set (dom hs)) hs (headers r)\<rparr>"

definition WithQueryParams :: "('v, 't, 'w) Request \<Rightarrow> Values \<Rightarrow> ('v, 't, 'w) Request" where
  "WithQueryParams r qs =
     r\<lparr>queryParams := range_assign (sorted_list_of_set (dom qs)) qs (queryParams r)\<rparr>"

definition WithResult :: "('v, 't, 'w) Request \<Rightarrow> 't option \<Rightarrow> ('v, 't, 'w) Request" where
  "WithResult r res = r\<lparr>result := res\<rparr>"

subsection \<open>Building and sending a request\<close>

text \<open>
  What lies outside the package and is not fixed by the libraries' code: how a body
  value is serialised and a response decoded (\<^verbatim>\<open>encoding/json\<close> on the caller's types;
  decoding gives the target as the decoder leaves it, with or without an error), and
  the order in which a \<^verbatim>\<open>range\<close> over the header map hands out its keys.
\<close>

record ('v, 't) runtime =
  json_Marshal :: "'v \<Rightarrow> error + string"
  json_Decode :: "string \<Rightarrow> 't \<Rightarrow> error option \<times> 't"
  range_keys :: "(string \<rightharpoonup> string) \<Rightarrow> string list"

text \<open>\<^verbatim>\<open>for k, v := range r.headers { req.Header.Set(k, v) }\<close>, keys in the order \<open>ks\<close>.\<close>

fun range_Set :: "string list \<Rightarrow> (string \<rightharpoonup> string) \<Rightarrow> Header \<Rightarrow> Header" where
  "range_Set [] m h = h"
| "range_Set (k # ks) m h =
     range_Set ks m (case m k of None \<Rightarrow> h | Some v \<Rightarrow> Header_Set h k v)"

text \<open>The method \<^verbatim>\<open>Request\<close> of the builder.\<close>

definition Request ::
  "('v, 't) runtime \<Rightarrow> ('v, 't, 'w) Request \<Rightarrow> go_context option \<Rightarrow> string \<Rightarrow> string
     \<Rightarrow> error + http_request" where
  "Request rt r ctx method path =
     (case Parse path of
        Inl e \<Rightarrow> Inl e
      | Inr ref \<Rightarrow>
          (let refURL = ResolveReference (url r) ref in
           case QueryUnescape (Encode (queryParams r)) of
             Inl e \<Rightarrow> Inl e
           | Inr q \<Rightarrow>
               (case NewRequestWithContext ctx method (URL_String (refURL\<lparr>RawQuery := q\<rparr>))
                       (bodyBytes r) of
                  Inl e \<Rightarrow> Inl e
                | Inr req \<Rightarrow>
                    (let req1 = req\<lparr>req_Header :=
                                  range_Set (range_keys rt (headers r)) (headers r) (req_Header req)\<rparr>
                     in if length (bodyBytes r) > 0 then
                          Inr (req1\<lparr>req_Header :=
                                 Header_Add (req_Header req1) ''Content-Length''
                                   (Itoa (int (length (bodyBytes r))))\<rparr>)
                        else Inr req1))))"

text \<open>
  What a call does besides returning: the events, in the order in which they happen.
\<close>

datatype 'v event =
    Marshal 'v
  | ClientDo http_request
  | Decode string
  | BodyClose

text \<open>
  A verb call gives what it returns, the builder as the call leaves it, the outside
  world as the transport leaves it, and the events of the call. The decode target is
  held by value: \<open>result\<close> is what the caller's target holds, and a decode replaces it.
\<close>

record ('v, 't, 'w) call =
  returned :: "error + 't option"
  builder :: "('v, 't, 'w) Request"
  world :: 'w
  events :: "'v event list"

definition do ::
  "('v, 't) runtime \<Rightarrow> ('v, 't, 'w) Request \<Rightarrow> 'w \<Rightarrow> go_context option \<Rightarrow> string \<Rightarrow> string
     \<Rightarrow> ('v, 't, 'w) call" where
  "do rt r w ctx method path =
     (case Request rt r ctx method path of
        Inl e \<Rightarrow> \<lparr>returned = Inl e, builder = r, world = w, events = []\<rparr>
      | Inr req \<Rightarrow>
          (case client r w req of
             (Inl e, w') \<Rightarrow> \<lparr>returned = Inl e, builder = r, world = w', events = [ClientDo req]\<rparr>
           | (Inr resp, w') \<Rightarrow>
               (case result r of
                  None \<Rightarrow>
                    \<lparr>returned = Inr None, builder = r, world = w',
                     events = [ClientDo req, BodyClose]\<rparr>
                | Some target \<Rightarrow>
                    (case json_Decode rt (resp_Body resp) target of
                       (Some e, target') \<Rightarrow>
                         \<lparr>returned = Inl e, builder = r\<lparr>result := Some target'\<rparr>, world = w',
                          events = [ClientDo req, Decode (resp_Body resp), BodyClose]\<rparr>
                     | (None, target') \<Rightarrow>
                         \<lparr>returned = Inr (Some target'), builder = r\<lparr>result := Some target'\<rparr>,
                          world = w',
                          events = [ClientDo req, Decode (resp_Body resp), BodyClose]\<rparr>))))"

definition Get ::
  "('v, 't) runtime \<Rightarrow> ('v, 't, 'w) Request \<Rightarrow> 'w \<Rightarrow> go_context option \<Rightarrow> string
     \<Rightarrow> ('v, 't, 'w) call" where
  "Get rt r w ctx path = do rt r w ctx ''GET'' path"

text \<open>
  \<^verbatim>\<open>Post\<close>, \<^verbatim>\<open>Put\<close> and \<^verbatim>\<open>Patch\<close> serialise a pending body first. The assignment
  \<^verbatim>\<open>r.bodyBytes, err = json.Marshal(r.body)\<close> stores before the error is looked at, and
  \<^verbatim>\<open>json.Marshal\<close> gives the nil slice with an error.
\<close>

definition Post ::
  "('v, 't) runtime \<Rightarrow> ('v, 't, 'w) Request \<Rightarrow> 'w \<Rightarrow> go_context option \<Rightarrow> string
     \<Rightarrow> ('v, 't, 'w) call" where
  "Post rt r w ctx path =
     (case body r of
        None \<Rightarrow> do rt r w ctx ''POST'' path
      | Some b \<Rightarrow>
          (case json_Marshal rt b of
             Inl e \<Rightarrow>
               \<lparr>returned = Inl e, builder = r\<lparr>bodyBytes := []\<rparr>, world = w, events = [Marshal b]\<rparr>
           | Inr bs \<Rightarrow>
               (let c = do rt (r\<lparr>bodyBytes := bs\<rparr>) w ctx ''POST'' path
                in c\<lparr>events := Marshal b # events c\<rparr>)))"

definition Put ::
  "('v, 't) runtime \<Rightarrow> ('v, 't, 'w) Request \<Rightarrow> 'w \<Rightarrow> go_context option \<Rightarrow> string
     \<Rightarrow> ('v, 't, 'w) call" where
  "Put rt r w ctx path =
     (case body r of
        None \<Rightarrow> do rt r w ctx ''PUT'' path
      | Some b \<Rightarrow>
          (case json_Marshal rt b of
             Inl e \<Rightarrow>
               \<lparr>returned = Inl e, builder = r\<lparr>bodyBytes := []\<rparr>, world = w, events = [Marshal b]\<rparr>
           | Inr bs \<Rightarrow>
               (let c = do rt (r\<lparr>bodyBytes := bs\<rparr>) w ctx ''PUT'' path
                in c\<lparr>events := Marshal b # events c\<rparr>)))"

definition Patch ::
  "('v, 't) runtime \<Rightarrow> ('v, 't, 'w) Request \<Rightarrow> 'w \<Rightarrow> go_context option \<Rightarrow> string
     \<Rightarrow> ('v, 't, 'w) call" where
  "Patch rt r w ctx path =
     (case body r of
        None \<Rightarrow> do rt r w ctx ''PATCH'' path
      | Some b \<Rightarrow>
          (case json_Marshal rt b of
             Inl e \<Rightarrow>
               \<lparr>returned = Inl e, builder = r\<lparr>bodyBytes := []\<rparr>, world = w, events = [Marshal b]\<rparr>
           | Inr bs \<Rightarrow>
               (let c = do rt (r\<lparr>bodyBytes := bs\<rparr>) w ctx ''PATCH'' path
                in c\<lparr>events := Marshal b # events c\<rparr>)))"

definition Delete ::
  "('v, 't) runtime \<Rightarrow> ('v, 't, 'w) Request \<Rightarrow> 'w \<Rightarrow> go_context option \<Rightarrow> string
     \<Rightarrow> ('v, 't, 'w) call" where
  "Delete rt r w ctx path = do rt r w ctx ''DELETE'' path"

subsection \<open>Reading the events of a call\<close>

text \<open>The requests handed to the transport, and the values handed to the serialiser.\<close>

fun sent :: "'v event list \<Rightarrow> http_request list" where
  "sent [] = []"
| "sent (ClientDo q # es) = q # sent es"
| "sent (Marshal v # es) = sent es"
| "sent (Decode s # es) = sent es"
| "sent (BodyClose # es) = sent es"

fun marshalled :: "'v event list \<Rightarrow> 'v list" where
  "marshalled [] = []"
| "marshalled (Marshal v # es) = v # marshalled es"
| "marshalled (ClientDo q # es) = marshalled es"
| "marshalled (Decode s # es) = marshalled es"
| "marshalled (BodyClose # es) = marshalled es"

subsection \<open>A test bench\<close>

text \<open>
  Concrete collaborators for running the model: the base URL of the specification's
  examples as \<^verbatim>\<open>url.Parse\<close> gives it, a transport stub that counts its calls and
  answers \<open>200\<close> with an empty JSON object, and a runtime for body values that are
  either a text free of characters that JSON escapes (serialised between double quotes)
  or a channel (which \<^verbatim>\<open>json.Marshal\<close> rejects). Its decoder accepts the empty object
  only, and its \<^verbatim>\<open>range\<close> hands the keys out in ascending order.
\<close>

definition example_base :: URL where
  "example_base = URL_zero\<lparr>Scheme := ''https'', Host := ''api.example.com'', Path := ''/v1/''\<rparr>"

definition stub_client :: "nat \<Rightarrow> http_request \<Rightarrow> (error + http_response) \<times> nat" where
  "stub_client n req = (Inr \<lparr>resp_StatusCode = 200, resp_Body = ''{}''\<rparr>, Suc n)"

datatype example_value = Text string | Chan

definition example_runtime :: "(example_value, string) runtime" where
  "example_runtime =
     \<lparr> json_Marshal =
         (\<lambda>v. case v of
                Text s \<Rightarrow> Inr (CHR 0x22 # s @ [CHR 0x22])
              | Chan \<Rightarrow> Inl (MarshalError ''json: unsupported type: chan int'')),
       json_Decode =
         (\<lambda>bs target. if bs = ''{}'' then (None, bs)
                       else (Some (DecodeError ''invalid character''), target)),
       range_keys = (\<lambda>m. sorted_list_of_set (dom m)) \<rparr>"

definition example_builder :: "(example_value, string, nat) Request" where
  "example_builder = New example_base stub_client ''application/json''"

definition example_ctx :: "go_context option" where
  "example_ctx = Some (Ctx 0)"

text \<open>A builder with two values for the query key \<open>a\<close> and one for \<open>b\<close>.\<close>

definition example_query_builder :: "(example_value, string, nat) Request" where
  "example_query_builder =
     WithQueryParam (WithQueryParam (WithQueryParam example_builder ''a'' ''1'') ''a'' ''2'') ''b'' ''x''"

text \<open>A builder with a pending JSON body, and what \<open>example_runtime\<close> serialises it to.\<close>

definition example_json_builder :: "(example_value, string, nat) Request" where
  "example_json_builder = WithJSONBody example_builder (Some (Text ''hi''))"

text \<open>A builder with one more header and one query parameter.\<close>

definition example_traced_builder :: "(example_value, string, nat) Request" where
  "example_traced_builder =
     WithQueryParam (WithHeader example_builder ''X-Trace'' ''1'') ''page'' ''2''"

text \<open>A builder with a raw body of 17 bytes.\<close>

definition example_bytes_builder :: "(example_value, string, nat) Request" where
  "example_bytes_builder = WithBodyBytes example_builder ''12345678901234567''"

text \<open>A builder with a query value that holds a number sign.\<close>

definition example_hash_builder :: "(example_value, string, nat) Request" where
  "example_hash_builder = WithQueryParam example_builder ''a'' ''#b''"

definition example_json_bytes :: string where
  "example_json_bytes = CHR 0x22 # ''hi'' @ [CHR 0x22]"

section \<open>Properties of the configuration operations\<close>

lemma range_assign_lookup:
  "range_assign ks m dst k = (if k \<in> set ks \<and> k \<in> dom m then m k else dst k)"
  by (induction ks arbitrary: dst) (auto split: option.splits)

lemma range_assign_map_add:
  assumes "set ks = dom m"
  shows "range_assign ks m dst = dst ++ m"
proof
  fix k
  show "range_assign ks m dst k = (dst ++ m) k"
    using assms by (cases "m k") (auto simp: range_assign_lookup map_add_def domIff)
qed

lemma index_Values_Add_same: "index (Values_Add v k x) k = index v k @ [x]"
  by (simp add: index_def Values_Add_def)

lemma Values_Add_other: "k' \<noteq> k \<Longrightarrow> Values_Add v k x k' = v k'"
  by (simp add: Values_Add_def)

lemma fold_WithQueryParam_index:
  "index (queryParams (fold (\<lambda>x r. WithQueryParam r k x) xs r)) k = index (queryParams r) k @ xs"
  by (induction xs arbitrary: r) (simp_all add: WithQueryParam_def index_Values_Add_same)

lemma fold_WithQueryParam_other:
  "k' \<noteq> k \<Longrightarrow> queryParams (fold (\<lambda>x r. WithQueryParam r k x) xs r) k' = queryParams r k'"
  by (induction xs arbitrary: r) (simp_all add: WithQueryParam_def Values_Add_other)

text \<open>
  C8. Setting a header with \<open>WithHeader\<close> and then setting the same key again leaves
  the builder exactly as one call with the later value would: the header map holds the
  later value for that key and every other entry, and every other field of the
  builder, is as before.
\<close>

theorem WithHeader_last_write_wins:
  "WithHeader (WithHeader r k v1) k v2 = WithHeader r k v2
   \<and> headers (WithHeader (WithHeader r k v1) k v2) = (headers r)(k \<mapsto> v2)"
  by (simp add: WithHeader_def)

text \<open>
  C9. Adding the values \<open>xs\<close> one after the other to the query key \<open>k\<close> with
  \<open>WithQueryParam\<close> appends them, in that order, to the values the key already had
  (none for a new key, so that \<open>n\<close> additions give a sequence of \<open>n\<close> values); the
  values of every other key stay as they were.
\<close>

theorem WithQueryParam_accumulates:
  "index (queryParams (fold (\<lambda>x r. WithQueryParam r k x) xs r)) k = index (queryParams r) k @ xs
   \<and> (queryParams r k = None \<longrightarrow>
        index (queryParams (fold (\<lambda>x r. WithQueryParam r k x) xs r)) k = xs
        \<and> length (index (queryParams (fold (\<lambda>x r. WithQueryParam r k x) xs r)) k) = length xs)
   \<and> (\<forall>k'. k' \<noteq> k \<longrightarrow>
        queryParams (fold (\<lambda>x r. WithQueryParam r k x) xs r) k' = queryParams r k')"
proof -
  have "queryParams r k = None \<Longrightarrow> index (queryParams r) k = []"
    by (simp add: index_def)
  then show ?thesis
    by (simp add: fold_WithQueryParam_index fold_WithQueryParam_other)
qed

theorem WithQueryParam_accumulates_witness:
  "queryParams example_builder ''a'' = None
   \<and> index (queryParams (fold (\<lambda>x r. WithQueryParam r ''a'' x) [''1'', ''2'', ''3''] example_builder)) ''a''
       = [''1'', ''2'', ''3'']
   \<and> queryParams (fold (\<lambda>x r. WithQueryParam r ''a'' x) [''1'', ''2'', ''3''] example_builder) ''b''
       = None"
proof -
  have fresh: "queryParams example_builder ''a'' = None" "queryParams example_builder ''b'' = None"
    by (simp_all add: example_builder_def New_def)
  show ?thesis
    using WithQueryParam_accumulates
      [where r = example_builder and k = "''a''" and xs = "[''1'', ''2'', ''3'']"] fresh
    by (simp add: index_def)
qed

text \<open>
  C3. Merging a finite multimap \<open>qs\<close> with \<open>WithQueryParams\<close> gives the builder's
  multimap overridden by \<open>qs\<close>: a key of \<open>qs\<close> gets exactly the value list \<open>qs\<close> has for
  it (the earlier values are dropped, not extended), a key that \<open>qs\<close> lacks keeps its
  list, and no other field of the builder changes.
\<close>

theorem WithQueryParams_overwrites_by_key:
  assumes "finite (dom qs)"
  shows "queryParams (WithQueryParams r qs) = queryParams r ++ qs
     \<and> (\<forall>k vs. qs k = Some vs \<longrightarrow> queryParams (WithQueryParams r qs) k = Some vs)
     \<and> (\<forall>k. qs k = None \<longrightarrow> queryParams (WithQueryParams r qs) k = queryParams r k)
     \<and> WithQueryParams r qs = r\<lparr>queryParams := queryParams r ++ qs\<rparr>"
proof -
  have "set (sorted_list_of_set (dom qs)) = dom qs"
    using assms by simp
  then have "range_assign (sorted_list_of_set (dom qs)) qs (queryParams r) = queryParams r ++ qs"
    by (rule range_assign_map_add)
  then show ?thesis
    by (simp add: WithQueryParams_def map_add_def)
qed

theorem WithQueryParams_overwrites_by_key_witness:
  "finite (dom [''a'' \<mapsto> [''9'']])
   \<and> queryParams example_query_builder ''a'' = Some [''1'', ''2'']
   \<and> queryParams (WithQueryParams example_query_builder [''a'' \<mapsto> [''9'']]) ''a'' = Some [''9'']
   \<and> queryParams (WithQueryParams example_query_builder [''a'' \<mapsto> [''9'']]) ''b'' = Some [''x'']"
proof -
  have fin: "finite (dom [''a'' \<mapsto> [''9'']])" by simp
  show ?thesis
    using WithQueryParams_overwrites_by_key [OF fin, of example_query_builder]
    by (simp add: example_query_builder_def WithQueryParam_def Values_Add_def index_def
        example_builder_def New_def map_add_def)
qed

section \<open>Properties of the verb calls\<close>

lemma Request_Body:
  "Request rt r ctx m p = Inr req \<Longrightarrow> req_Body req = bodyBytes r"
  by (auto simp: Request_def NewRequestWithContext_def Let_def
      split: sum.splits option.splits if_splits)

lemma Request_ignores_body:
  "Request rt (r\<lparr>body := b\<rparr>) ctx m p = Request rt r ctx m p"
  by (simp add: Request_def Let_def cong: sum.case_cong if_cong)

lemma Request_ignores_result:
  "Request rt (r\<lparr>result := t\<rparr>) ctx m p = Request rt r ctx m p"
  by (simp add: Request_def Let_def cong: sum.case_cong if_cong)

lemma do_builder:
  "builder (do rt r w ctx m p) = r\<lparr>result := result (builder (do rt r w ctx m p))\<rparr>"
  by (simp add: do_def split: sum.splits prod.splits option.splits)

lemma do_bodyBytes: "bodyBytes (builder (do rt r w ctx m p)) = bodyBytes r"
  by (simp add: do_def split: sum.splits prod.splits option.splits)

lemma do_marshalled: "marshalled (events (do rt r w ctx m p)) = []"
  by (simp add: do_def split: sum.splits prod.splits option.splits)

lemma do_sent:
  "sent (events (do rt r w ctx m p)) =
     (case Request rt r ctx m p of Inl e \<Rightarrow> [] | Inr req \<Rightarrow> [req])"
  by (simp add: do_def split: sum.splits prod.splits option.splits)

lemma do_sent_Body:
  "list_all (\<lambda>q. req_Body q = bodyBytes r) (sent (events (do rt r w ctx m p)))"
  by (simp add: do_sent Request_Body split: sum.splits)

lemma do_body_irrelevant:
  "do rt (r\<lparr>body := b\<rparr>) w ctx m p
     = (do rt r w ctx m p)\<lparr>builder := (builder (do rt r w ctx m p))\<lparr>body := b\<rparr>\<rparr>"
  by (simp add: do_def Request_ignores_body split: sum.splits prod.splits option.splits)

lemma Post_builder:
  "builder (Post rt r w ctx p)
     = r\<lparr>bodyBytes := bodyBytes (builder (Post rt r w ctx p)),
         result := result (builder (Post rt r w ctx p))\<rparr>"
proof (cases "body r")
  case None
  then show ?thesis
    using do_builder [of rt r w ctx "''POST''" p] by (simp add: Post_def do_bodyBytes)
next
  case (Some b)
  show ?thesis
  proof (cases "json_Marshal rt b")
    case (Inl e)
    with Some show ?thesis by (simp add: Post_def)
  next
    case (Inr bs)
    with Some show ?thesis
      using do_builder [of rt "r\<lparr>bodyBytes := bs\<rparr>" w ctx "''POST''" p]
      by (simp add: Post_def Let_def do_bodyBytes)
  qed
qed

lemma Post_sent_Body:
  "list_all (\<lambda>q. req_Body q = bodyBytes (builder (Post rt r w ctx p)))
     (sent (events (Post rt r w ctx p)))"
proof (cases "body r")
  case None
  then show ?thesis
    using do_sent_Body [of r rt w ctx "''POST''" p] by (simp add: Post_def do_bodyBytes)
next
  case (Some b)
  show ?thesis
  proof (cases "json_Marshal rt b")
    case (Inl e)
    with Some show ?thesis by (simp add: Post_def)
  next
    case (Inr bs)
    with Some show ?thesis
      using do_sent_Body [of "r\<lparr>bodyBytes := bs\<rparr>" rt w ctx "''POST''" p]
      by (simp add: Post_def Let_def do_bodyBytes)
  qed
qed

lemma Post_stores:
  "body r = Some b \<Longrightarrow> json_Marshal rt b = Inr bs \<Longrightarrow>
     bodyBytes (builder (Post rt r w ctx p)) = bs"
  by (simp add: Post_def Let_def do_bodyBytes)

lemma Post_marshal_fails:
  "body r = Some b \<Longrightarrow> json_Marshal rt b = Inl e \<Longrightarrow>
     Post rt r w ctx p
       = \<lparr>returned = Inl e, builder = r\<lparr>bodyBytes := []\<rparr>, world = w, events = [Marshal b]\<rparr>"
  by (simp add: Post_def)

lemma Put_builder:
  "builder (Put rt r w ctx p)
     = r\<lparr>bodyBytes := bodyBytes (builder (Put rt r w ctx p)),
         result := result (builder (Put rt r w ctx p))\<rparr>"
proof (cases "body r")
  case None
  then show ?thesis
    using do_builder [of rt r w ctx "''PUT''" p] by (simp add: Put_def do_bodyBytes)
next
  case (Some b)
  show ?thesis
  proof (cases "json_Marshal rt b")
    case (Inl e)
    with Some show ?thesis by (simp add: Put_def)
  next
    case (Inr bs)
    with Some show ?thesis
      using do_builder [of rt "r\<lparr>bodyBytes := bs\<rparr>" w ctx "''PUT''" p]
      by (simp add: Put_def Let_def do_bodyBytes)
  qed
qed

lemma Put_sent_Body:
  "list_all (\<lambda>q. req_Body q = bodyBytes (builder (Put rt r w ctx p)))
     (sent (events (Put rt r w ctx p)))"
proof (cases "body r")
  case None
  then show ?thesis
    using do_sent_Body [of r rt w ctx "''PUT''" p] by (simp add: Put_def do_bodyBytes)
next
  case (Some b)
  show ?thesis
  proof (cases "json_Marshal rt b")
    case (Inl e)
    with Some show ?thesis by (simp add: Put_def)
  next
    case (Inr bs)
    with Some show ?thesis
      using do_sent_Body [of "r\<lparr>bodyBytes := bs\<rparr>" rt w ctx "''PUT''" p]
      by (simp add: Put_def Let_def do_bodyBytes)
  qed
qed

lemma Put_stores:
  "body r = Some b \<Longrightarrow> json_Marshal rt b = Inr bs \<Longrightarrow>
     bodyBytes (builder (Put rt r w ctx p)) = bs"
  by (simp add: Put_def Let_def do_bodyBytes)

lemma Put_marshal_fails:
  "body r = Some b \<Longrightarrow> json_Marshal rt b = Inl e \<Longrightarrow>
     Put rt r w ctx p
       = \<lparr>returned = Inl e, builder = r\<lparr>bodyBytes := []\<rparr>, world = w, events = [Marshal b]\<rparr>"
  by (simp add: Put_def)

lemma Patch_builder:
  "builder (Patch rt r w ctx p)
     = r\<lparr>bodyBytes := bodyBytes (builder (Patch rt r w ctx p)),
         result := result (builder (Patch rt r w ctx p))\<rparr>"
proof (cases "body r")
  case None
  then show ?thesis
    using do_builder [of rt r w ctx "''PATCH''" p] by (simp add: Patch_def do_bodyBytes)
next
  case (Some b)
  show ?thesis
  proof (cases "json_Marshal rt b")
    case (Inl e)
    with Some show ?thesis by (simp add: Patch_def)
  next
    case (Inr bs)
    with Some show ?thesis
      using do_builder [of rt "r\<lparr>bodyBytes := bs\<rparr>" w ctx "''PATCH''" p]
      by (simp add: Patch_def Let_def do_bodyBytes)
  qed
qed

lemma Patch_sent_Body:
  "list_all (\<lambda>q. req_Body q = bodyBytes (builder (Patch rt r w ctx p)))
     (sent (events (Patch rt r w ctx p)))"
proof (cases "body r")
  case None
  then show ?thesis
    using do_sent_Body [of r rt w ctx "''PATCH''" p] by (simp add: Patch_def do_bodyBytes)
next
  case (Some b)
  show ?thesis
  proof (cases "json_Marshal rt b")
    case (Inl e)
    with Some show ?thesis by (simp add: Patch_def)
  next
    case (Inr bs)
    with Some show ?thesis
      using do_sent_Body [of "r\<lparr>bodyBytes := bs\<rparr>" rt w ctx "''PATCH''" p]
      by (simp add: Patch_def Let_def do_bodyBytes)
  qed
qed

lemma Patch_stores:
  "body r = Some b \<Longrightarrow> json_Marshal rt b = Inr bs \<Longrightarrow>
     bodyBytes (builder (Patch rt r w ctx p)) = bs"
  by (simp add: Patch_def Let_def do_bodyBytes)

lemma Patch_marshal_fails:
  "body r = Some b \<Longrightarrow> json_Marshal rt b = Inl e \<Longrightarrow>
     Patch rt r w ctx p
       = \<lparr>returned = Inl e, builder = r\<lparr>bodyBytes := []\<rparr>, world = w, events = [Marshal b]\<rparr>"
  by (simp add: Patch_def)

text \<open>Evaluations on the test bench that several of the examples below share.\<close>

lemma Parse_widgets: "Parse ''widgets'' = Inr (URL_zero\<lparr>Path := ''widgets''\<rparr>)"
  by code_simp

lemma String_widgets:
  "URL_String ((ResolveReference example_base (URL_zero\<lparr>Path := ''widgets''\<rparr>))\<lparr>RawQuery := []\<rparr>)
     = ''https://api.example.com/v1/widgets''"
  by code_simp

lemma Parse_widgets_url:
  "Parse ''https://api.example.com/v1/widgets''
     = Inr (URL_zero\<lparr>Scheme := ''https'', Host := ''api.example.com'', Path := ''/v1/widgets''\<rparr>)"
  by code_simp

lemma validMethod_verbs:
  "validMethod ''GET''" "validMethod ''POST''" "validMethod ''PUT''" "validMethod ''PATCH''"
  "validMethod ''DELETE''"
  by code_simp+

lemmas bench_defs =
  example_builder_def example_json_builder_def example_json_bytes_def example_ctx_def
  example_runtime_def stub_client_def New_def WithJSONBody_def

lemmas bench_eval =
  Parse_widgets String_widgets Parse_widgets_url validMethod_verbs
  Request_def Encode_def QueryUnescape_def unescape_def NewRequestWithContext_def do_def

text \<open>
  C4. When a body is pending and its serialisation fails with the error \<open>e\<close>, each of
  \<open>Post\<close>, \<open>Put\<close> and \<open>Patch\<close> returns \<open>e\<close> itself, hands no request to the
  transport (the only event of the call is the serialisation attempt) and leaves the
  outside world as it was.
\<close>

theorem failing_marshal_sends_nothing:
  assumes "body r = Some b" and "json_Marshal rt b = Inl e"
  shows "returned (Post rt r w ctx p) = Inl e \<and> sent (events (Post rt r w ctx p)) = []
       \<and> events (Post rt r w ctx p) = [Marshal b] \<and> world (Post rt r w ctx p) = w
     \<and> returned (Put rt r w ctx p) = Inl e \<and> sent (events (Put rt r w ctx p)) = []
       \<and> events (Put rt r w ctx p) = [Marshal b] \<and> world (Put rt r w ctx p) = w
     \<and> returned (Patch rt r w ctx p) = Inl e \<and> sent (events (Patch rt r w ctx p)) = []
       \<and> events (Patch rt r w ctx p) = [Marshal b] \<and> world (Patch rt r w ctx p) = w"
  by (simp add: Post_marshal_fails [OF assms] Put_marshal_fails [OF assms]
      Patch_marshal_fails [OF assms])

theorem failing_marshal_sends_nothing_witness:
  "body (WithJSONBody example_builder (Some Chan)) = Some Chan
   \<and> json_Marshal example_runtime Chan = Inl (MarshalError ''json: unsupported type: chan int'')
   \<and> returned (Post example_runtime (WithJSONBody example_builder (Some Chan)) 0 example_ctx ''widgets'')
       = Inl (MarshalError ''json: unsupported type: chan int'')
   \<and> sent (events (Post example_runtime (WithJSONBody example_builder (Some Chan)) 0 example_ctx ''widgets''))
       = []
   \<and> world (Post example_runtime (WithJSONBody example_builder (Some Chan)) 0 example_ctx ''widgets'') = 0"
proof -
  have b: "body (WithJSONBody example_builder (Some Chan)) = Some Chan"
    by (simp add: WithJSONBody_def)
  have m: "json_Marshal example_runtime Chan = Inl (MarshalError ''json: unsupported type: chan int'')"
    by (simp add: example_runtime_def)
  show ?thesis
    using failing_marshal_sends_nothing [OF b m, of 0 example_ctx "''widgets''"] b m by simp
qed

lemma verb_call_builder:
  assumes "c \<in> {Get rt r w ctx p, Post rt r w ctx p, Put rt r w ctx p, Patch rt r w ctx p,
                 Delete rt r w ctx p}"
  shows "builder c = r\<lparr>bodyBytes := bodyBytes (builder c), result := result (builder c)\<rparr>"
proof -
  have "builder (Get rt r w ctx p)
          = r\<lparr>bodyBytes := bodyBytes (builder (Get rt r w ctx p)),
              result := result (builder (Get rt r w ctx p))\<rparr>"
    using do_builder [of rt r w ctx "''GET''" p] by (simp add: Get_def do_bodyBytes)
  moreover have "builder (Delete rt r w ctx p)
          = r\<lparr>bodyBytes := bodyBytes (builder (Delete rt r w ctx p)),
              result := result (builder (Delete rt r w ctx p))\<rparr>"
    using do_builder [of rt r w ctx "''DELETE''" p] by (simp add: Delete_def do_bodyBytes)
  ultimately show ?thesis
    using assms Post_builder [of rt r w ctx p] Put_builder [of rt r w ctx p]
      Patch_builder [of rt r w ctx p]
    by auto
qed

lemma Request_bodyBytes_result_only:
  "Request rt (r\<lparr>bodyBytes := bs, result := t\<rparr>) ctx m p = Request rt (r\<lparr>bodyBytes := bs\<rparr>) ctx m p"
  using Request_ignores_result [where r = "r\<lparr>bodyBytes := bs\<rparr>"] by simp

text \<open>
  C5. A verb call that fails, whatever the error, leaves the builder's header map and
  query multimap as they were; of the whole builder only the stored byte body and the
  decode target can differ. The builder stays usable: the request a later call builds
  from it is the one the builder before the failed call would build with that byte
  body. (Nothing here depends on the failure: a call that succeeds keeps them too.)
\<close>

theorem failed_call_keeps_configuration:
  assumes "c \<in> {Get rt r w ctx p, Post rt r w ctx p, Put rt r w ctx p, Patch rt r w ctx p,
                 Delete rt r w ctx p}"
    and "returned c = Inl e"
  shows "headers (builder c) = headers r \<and> queryParams (builder c) = queryParams r
     \<and> builder c = r\<lparr>bodyBytes := bodyBytes (builder c), result := result (builder c)\<rparr>
     \<and> Request rt' (builder c) ctx' m' p'
         = Request rt' (r\<lparr>bodyBytes := bodyBytes (builder c)\<rparr>) ctx' m' p'"
proof -
  have eq: "builder c = r\<lparr>bodyBytes := bodyBytes (builder c), result := result (builder c)\<rparr>"
    using assms(1) by (rule verb_call_builder)
  have "headers (builder c) = headers r" "queryParams (builder c) = queryParams r"
    by (subst eq, simp)+
  moreover have "Request rt' (builder c) ctx' m' p'
         = Request rt' (r\<lparr>bodyBytes := bodyBytes (builder c)\<rparr>) ctx' m' p'"
    by (subst eq) (rule Request_bodyBytes_result_only)
  ultimately show ?thesis using eq by simp
qed

lemma Parse_bad_escape: "Parse ''%zz'' = Inl (UrlError ''parse'' ''%zz'' (EscapeError ''%zz''))"
  by code_simp

lemma Encode_traced: "Encode (queryParams example_traced_builder) = ''page=2''"
  by (simp add: example_traced_builder_def WithQueryParam_def WithHeader_def Values_Add_def
      bench_defs Encode_def Encode_pairs_def index_def QueryEscape_def shouldEscape_def
      is_lower_def is_upper_def is_digit_def)

lemma QueryUnescape_page: "QueryUnescape ''page=2'' = Inr ''page=2''"
  by code_simp

lemma String_widgets_page:
  "URL_String ((ResolveReference example_base (URL_zero\<lparr>Path := ''widgets''\<rparr>))\<lparr>RawQuery := ''page=2''\<rparr>)
     = ''https://api.example.com/v1/widgets?page=2''"
  by code_simp

lemma Parse_widgets_page_url:
  "Parse ''https://api.example.com/v1/widgets?page=2''
     = Inr (URL_zero\<lparr>Scheme := ''https'', Host := ''api.example.com'', Path := ''/v1/widgets'',
                    RawQuery := ''page=2''\<rparr>)"
  by code_simp

lemma traced_fields:
  "url example_traced_builder = example_base"
  "bodyBytes example_traced_builder = []"
  "result example_traced_builder = None"
  "body example_traced_builder = None"
  "client example_traced_builder = stub_client"
  "headers example_traced_builder = [''Accept'' \<mapsto> ''application/json'', ''X-Trace'' \<mapsto> ''1'']"
  "queryParams example_traced_builder = [''page'' \<mapsto> [''2'']]"
  by (simp_all add: example_traced_builder_def WithQueryParam_def WithHeader_def Values_Add_def
      bench_defs index_def)

lemma Get_bad: "Get example_runtime example_traced_builder 0 example_ctx ''%zz''
   = \<lparr>returned = Inl (UrlError ''parse'' ''%zz'' (EscapeError ''%zz'')), builder = example_traced_builder, world = 0, events = []\<rparr>"
  by (simp add: Get_def do_def Request_def Parse_bad_escape)

theorem failed_call_keeps_configuration_witness:
  "returned (Get example_runtime example_traced_builder 0 example_ctx ''%zz'')
     = Inl (UrlError ''parse'' ''%zz'' (EscapeError ''%zz''))
   \<and> headers (builder (Get example_runtime example_traced_builder 0 example_ctx ''%zz'')) ''X-Trace''
       = Some ''1''
   \<and> queryParams (builder (Get example_runtime example_traced_builder 0 example_ctx ''%zz'')) ''page''
       = Some [''2'']
   \<and> returned (Get example_runtime
         (builder (Get example_runtime example_traced_builder 0 example_ctx ''%zz'')) 0 example_ctx
         ''widgets'') = Inr None
   \<and> map (\<lambda>q. RawQuery (req_URL q)) (sent (events (Get example_runtime
         (builder (Get example_runtime example_traced_builder 0 example_ctx ''%zz'')) 0 example_ctx
         ''widgets''))) = [''page=2'']"
proof -
  have ret: "returned (Get example_runtime example_traced_builder 0 example_ctx ''%zz'')
     = Inl (UrlError ''parse'' ''%zz'' (EscapeError ''%zz''))"
    by (simp add: Get_bad)
  have good: "returned (Get example_runtime example_traced_builder 0 example_ctx ''widgets'') = Inr None
    \<and> map (\<lambda>q. RawQuery (req_URL q)) (sent (events (Get example_runtime example_traced_builder 0 example_ctx ''widgets''))) = [''page=2'']"
    by (simp add: Get_def do_def Request_def traced_fields Encode_traced [simplified traced_fields] QueryUnescape_page
        Parse_widgets String_widgets_page Parse_widgets_page_url NewRequestWithContext_def
        validMethod_verbs example_ctx_def stub_client_def)
  show ?thesis
    using failed_call_keeps_configuration
      [where c = "Get example_runtime example_traced_builder 0 example_ctx ''%zz''"
         and rt = example_runtime and r = example_traced_builder and w = 0 and ctx = example_ctx
         and p = "''%zz''", OF _ ret]
      ret good
    by (simp add: Get_bad traced_fields)
qed

text \<open>
  C1 (as the code has it). \<open>Get\<close> and \<open>Delete\<close> never call the serialiser and leave the
  stored byte body alone; every request they hand to the transport carries the stored
  byte body as its body; and which JSON value is pending makes no difference to what
  they return, to what they do and to the world they leave. The stored byte body is
  what \<open>WithBodyBytes\<close> or an earlier \<open>Post\<close>, \<open>Put\<close> or \<open>Patch\<close> left there: it is
  empty on a builder that only had \<open>WithJSONBody\<close> applied, and it is the serialised
  pending value after such an earlier call, which \<open>Get\<close> and \<open>Delete\<close> then send.
\<close>

theorem Get_Delete_never_serialise:
  "marshalled (events (Get rt r w ctx p)) = []
   \<and> marshalled (events (Delete rt r w ctx p)) = []
   \<and> bodyBytes (builder (Get rt r w ctx p)) = bodyBytes r
   \<and> bodyBytes (builder (Delete rt r w ctx p)) = bodyBytes r
   \<and> list_all (\<lambda>q. req_Body q = bodyBytes r) (sent (events (Get rt r w ctx p)))
   \<and> list_all (\<lambda>q. req_Body q = bodyBytes r) (sent (events (Delete rt r w ctx p)))
   \<and> events (Get rt (WithJSONBody r b) w ctx p) = events (Get rt (WithJSONBody r b') w ctx p)
   \<and> returned (Get rt (WithJSONBody r b) w ctx p) = returned (Get rt (WithJSONBody r b') w ctx p)
   \<and> world (Get rt (WithJSONBody r b) w ctx p) = world (Get rt (WithJSONBody r b') w ctx p)
   \<and> events (Delete rt (WithJSONBody r b) w ctx p) = events (Delete rt (WithJSONBody r b') w ctx p)
   \<and> returned (Delete rt (WithJSONBody r b) w ctx p)
       = returned (Delete rt (WithJSONBody r b') w ctx p)
   \<and> world (Delete rt (WithJSONBody r b) w ctx p) = world (Delete rt (WithJSONBody r b') w ctx p)"
proof -
  define r0 where "r0 = r\<lparr>headers := (headers r)(''Content-Type'' \<mapsto> ''application/json'')\<rparr>"
  have wj: "WithJSONBody r x = r0\<lparr>body := x\<rparr>" for x
    by (simp add: WithJSONBody_def r0_def)
  have indep: "events (do rt (r0\<lparr>body := x\<rparr>) w ctx m p) = events (do rt r0 w ctx m p)
      \<and> returned (do rt (r0\<lparr>body := x\<rparr>) w ctx m p) = returned (do rt r0 w ctx m p)
      \<and> world (do rt (r0\<lparr>body := x\<rparr>) w ctx m p) = world (do rt r0 w ctx m p)" for x m
    by (simp add: do_body_irrelevant)
  show ?thesis
    by (simp add: Get_def Delete_def do_marshalled do_bodyBytes do_sent_Body wj indep)
qed

theorem Get_Delete_never_serialise_witness:
  "marshalled (events (Get example_runtime example_json_builder 0 example_ctx ''widgets'')) = []
   \<and> bodyBytes example_json_builder = []
   \<and> list_all (\<lambda>q. req_Body q = [])
        (sent (events (Get example_runtime example_json_builder 0 example_ctx ''widgets'')))
   \<and> length (sent (events (Get example_runtime example_json_builder 0 example_ctx ''widgets''))) = 1"
proof -
  have "bodyBytes example_json_builder = []"
    by (simp add: bench_defs)
  moreover have
    "length (sent (events (Get example_runtime example_json_builder 0 example_ctx ''widgets''))) = 1"
    by (simp add: Get_def bench_defs bench_eval)
  ultimately show ?thesis
    using Get_Delete_never_serialise
      [where rt = example_runtime and r = example_json_builder and w = 0 and ctx = example_ctx
         and p = "''widgets''"]
    by simp
qed

text \<open>
  The claim as it is written fails once the pending value has been serialised: after a
  \<open>Post\<close> of the pending text, a \<open>Get\<close> on the same builder sends the serialised text.
\<close>

theorem Get_sends_serialised_body_counterexample:
  "body (builder (Post example_runtime example_json_builder 0 example_ctx ''widgets''))
     = Some (Text ''hi'')
   \<and> json_Marshal example_runtime (Text ''hi'') = Inr example_json_bytes
   \<and> map req_Body (sent (events (Get example_runtime
         (builder (Post example_runtime example_json_builder 0 example_ctx ''widgets'')) 1 example_ctx
         ''widgets''))) = [example_json_bytes]"
  by (simp add: Post_def Get_def bench_defs bench_eval)

text \<open>
  C10. With a body pending whose serialisation gives \<open>bs\<close>, each of \<open>Post\<close>, \<open>Put\<close> and
  \<open>Patch\<close> leaves \<open>bs\<close> as the builder's stored byte body. Every verb call hands the
  transport only requests whose body is the byte body stored on the builder the call
  leaves, which for \<open>Get\<close> and \<open>Delete\<close> is the one stored before the call: so a later
  \<open>Get\<close> or \<open>Delete\<close> on that builder sends \<open>bs\<close>.
\<close>

theorem serialised_body_persists:
  assumes "body r = Some b" and "json_Marshal rt b = Inr bs"
  shows "bodyBytes (builder (Post rt r w ctx p)) = bs
     \<and> bodyBytes (builder (Put rt r w ctx p)) = bs
     \<and> bodyBytes (builder (Patch rt r w ctx p)) = bs
     \<and> list_all (\<lambda>q. req_Body q = bs) (sent (events (Post rt r w ctx p)))
     \<and> list_all (\<lambda>q. req_Body q = bs) (sent (events (Put rt r w ctx p)))
     \<and> list_all (\<lambda>q. req_Body q = bs) (sent (events (Patch rt r w ctx p)))
     \<and> list_all (\<lambda>q. req_Body q = bs)
          (sent (events (Get rt' (builder (Post rt r w ctx p)) w' ctx' p')))
     \<and> list_all (\<lambda>q. req_Body q = bs)
          (sent (events (Delete rt' (builder (Post rt r w ctx p)) w' ctx' p')))
     \<and> list_all (\<lambda>q. req_Body q = bodyBytes (builder (Post rt' r' w' ctx' p')))
          (sent (events (Post rt' r' w' ctx' p')))
     \<and> list_all (\<lambda>q. req_Body q = bodyBytes (builder (Put rt' r' w' ctx' p')))
          (sent (events (Put rt' r' w' ctx' p')))
     \<and> list_all (\<lambda>q. req_Body q = bodyBytes (builder (Patch rt' r' w' ctx' p')))
          (sent (events (Patch rt' r' w' ctx' p')))
     \<and> list_all (\<lambda>q. req_Body q = bodyBytes r') (sent (events (Get rt' r' w' ctx' p')))
     \<and> list_all (\<lambda>q. req_Body q = bodyBytes r') (sent (events (Delete rt' r' w' ctx' p')))"
proof -
  have st: "bodyBytes (builder (Post rt r w ctx p)) = bs"
    "bodyBytes (builder (Put rt r w ctx p)) = bs"
    "bodyBytes (builder (Patch rt r w ctx p)) = bs"
    using assms by (simp_all add: Post_stores Put_stores Patch_stores)
  have own: "list_all (\<lambda>q. req_Body q = bs) (sent (events (Post rt r w ctx p)))"
    "list_all (\<lambda>q. req_Body q = bs) (sent (events (Put rt r w ctx p)))"
    "list_all (\<lambda>q. req_Body q = bs) (sent (events (Patch rt r w ctx p)))"
    using Post_sent_Body [of rt r w ctx p] Put_sent_Body [of rt r w ctx p]
      Patch_sent_Body [of rt r w ctx p]
    by (simp_all add: st)
  have later: "list_all (\<lambda>q. req_Body q = bodyBytes x) (sent (events (Get rt' x w' ctx' p')))"
    "list_all (\<lambda>q. req_Body q = bodyBytes x) (sent (events (Delete rt' x w' ctx' p')))" for x
    by (simp_all add: Get_def Delete_def do_sent_Body)
  show ?thesis
    using st own later [of "builder (Post rt r w ctx p)"] later [of r']
      Post_sent_Body [of rt' r' w' ctx' p'] Put_sent_Body [of rt' r' w' ctx' p']
      Patch_sent_Body [of rt' r' w' ctx' p']
    by simp
qed

theorem serialised_body_persists_witness:
  "body example_json_builder = Some (Text ''hi'')
   \<and> json_Marshal example_runtime (Text ''hi'') = Inr example_json_bytes
   \<and> returned (Put example_runtime example_json_builder 0 example_ctx ''widgets'') = Inr None
   \<and> bodyBytes (builder (Put example_runtime example_json_builder 0 example_ctx ''widgets''))
       = example_json_bytes
   \<and> map req_Body (sent (events (Put example_runtime example_json_builder 0 example_ctx ''widgets'')))
       = [example_json_bytes]
   \<and> map req_Body (sent (events (Delete example_runtime
         (builder (Put example_runtime example_json_builder 0 example_ctx ''widgets'')) 1 example_ctx
         ''widgets''))) = [example_json_bytes]"
proof -
  have b: "body example_json_builder = Some (Text ''hi'')"
    by (simp add: bench_defs)
  have m: "json_Marshal example_runtime (Text ''hi'') = Inr example_json_bytes"
    by (simp add: bench_defs)
  have run: "returned (Put example_runtime example_json_builder 0 example_ctx ''widgets'') = Inr None
     \<and> map req_Body (sent (events (Put example_runtime example_json_builder 0 example_ctx ''widgets'')))
         = [example_json_bytes]
     \<and> map req_Body (sent (events (Delete example_runtime
           (builder (Put example_runtime example_json_builder 0 example_ctx ''widgets'')) 1 example_ctx
           ''widgets''))) = [example_json_bytes]"
    by (simp add: Put_def Delete_def bench_defs bench_eval)
  show ?thesis
    using serialised_body_persists [OF b m, where w = 0 and ctx = example_ctx and p = "''widgets''"]
      b m run
    by simp
qed

section \<open>Properties of request construction\<close>

lemma Canonical_Content_Length: "CanonicalMIMEHeaderKey ''Content-Length'' = ''Content-Length''"
  by code_simp

lemma Request_Header:
  assumes "Request rt r ctx m p = Inr req"
  shows "req_Header req =
     (if bodyBytes r \<noteq> [] then
        Header_Add (range_Set (range_keys rt (headers r)) (headers r) Map.empty) ''Content-Length''
          (Itoa (int (length (bodyBytes r))))
      else range_Set (range_keys rt (headers r)) (headers r) Map.empty)"
  using assms
  by (auto simp: Request_def NewRequestWithContext_def Let_def
      split: sum.splits option.splits if_splits)

lemma range_Set_absent:
  assumes "\<forall>k\<in>dom hs. CanonicalMIMEHeaderKey k \<noteq> K" and "h K = None"
  shows "range_Set ks hs h K = None"
  using assms
proof (induction ks arbitrary: h)
  case Nil
  then show ?case by simp
next
  case (Cons k ks)
  show ?case
  proof (cases "hs k")
    case None
    with Cons show ?thesis by simp
  next
    case (Some v)
    then have "CanonicalMIMEHeaderKey k \<noteq> K" using Cons.prems(1) by auto
    then have "Header_Set h k v K = None" using Cons.prems(2) by (simp add: Header_Set_def)
    with Cons Some show ?thesis by simp
  qed
qed

text \<open>
  C6. In a request that \<open>Request\<close> builds, a non-empty stored byte body adds the decimal
  text of its length as a value of the \<open>Content-Length\<close> header: it comes last, after
  whatever the accumulated headers put under that name, and it is the only value when
  no accumulated header name canonicalises to \<open>Content-Length\<close>. With an empty body the
  request's headers are the accumulated headers and nothing else, so there is no
  \<open>Content-Length\<close> unless an accumulated header supplies one.
\<close>

theorem Content_Length_is_body_length:
  assumes "Request rt r ctx m p = Inr req"
  shows "(bodyBytes r \<noteq> [] \<longrightarrow>
            index (req_Header req) ''Content-Length''
              = index (range_Set (range_keys rt (headers r)) (headers r) Map.empty) ''Content-Length''
                @ [Itoa (int (length (bodyBytes r)))]
          \<and> last (index (req_Header req) ''Content-Length'') = Itoa (int (length (bodyBytes r)))
          \<and> ((\<forall>k\<in>dom (headers r). CanonicalMIMEHeaderKey k \<noteq> ''Content-Length'') \<longrightarrow>
                req_Header req ''Content-Length'' = Some [Itoa (int (length (bodyBytes r)))]))
     \<and> (bodyBytes r = [] \<longrightarrow>
            req_Header req = range_Set (range_keys rt (headers r)) (headers r) Map.empty
          \<and> ((\<forall>k\<in>dom (headers r). CanonicalMIMEHeaderKey k \<noteq> ''Content-Length'') \<longrightarrow>
                req_Header req ''Content-Length'' = None))"
proof -
  let ?h = "range_Set (range_keys rt (headers r)) (headers r) Map.empty"
  have absent: "?h ''Content-Length'' = None"
    if "\<forall>k\<in>dom (headers r). CanonicalMIMEHeaderKey k \<noteq> ''Content-Length''"
    using that by (intro range_Set_absent) simp_all
  show ?thesis
  proof (cases "bodyBytes r = []")
    case True
    then show ?thesis
      using Request_Header [OF assms] absent by simp
  next
    case False
    then have hd: "req_Header req
        = Header_Add ?h ''Content-Length'' (Itoa (int (length (bodyBytes r))))"
      using Request_Header [OF assms] by simp
    have "index (req_Header req) ''Content-Length''
        = index ?h ''Content-Length'' @ [Itoa (int (length (bodyBytes r)))]"
      by (simp add: hd Header_Add_def Canonical_Content_Length index_def)
    moreover have "req_Header req ''Content-Length'' = Some [Itoa (int (length (bodyBytes r)))]"
      if "\<forall>k\<in>dom (headers r). CanonicalMIMEHeaderKey k \<noteq> ''Content-Length''"
      using absent [OF that] by (simp add: hd Header_Add_def Canonical_Content_Length index_def)
    ultimately show ?thesis using False by simp
  qed
qed

lemma Canonical_Accept: "CanonicalMIMEHeaderKey ''Accept'' = ''Accept''"
  by code_simp

lemma Itoa_17: "Itoa 17 = ''17''"
  by code_simp

theorem Content_Length_is_body_length_witness:
  "length (bodyBytes example_bytes_builder) = 17
   \<and> (case Request example_runtime example_bytes_builder example_ctx ''POST'' ''widgets'' of
        Inl e \<Rightarrow> False
      | Inr req \<Rightarrow> req_Header req ''Content-Length'' = Some [''17''])
   \<and> bodyBytes example_builder = []
   \<and> (case Request example_runtime example_builder example_ctx ''POST'' ''widgets'' of
        Inl e \<Rightarrow> False
      | Inr req \<Rightarrow> req_Header req ''Content-Length'' = None)"
proof -
  have len: "length (bodyBytes example_bytes_builder) = 17" "bodyBytes example_bytes_builder \<noteq> []"
    "bodyBytes example_builder = []"
    by (simp_all add: example_bytes_builder_def WithBodyBytes_def bench_defs)
  have hs: "\<forall>k\<in>dom (headers example_bytes_builder). CanonicalMIMEHeaderKey k \<noteq> ''Content-Length''"
    "\<forall>k\<in>dom (headers example_builder). CanonicalMIMEHeaderKey k \<noteq> ''Content-Length''"
    by (simp_all add: example_bytes_builder_def WithBodyBytes_def bench_defs Canonical_Accept)
  obtain req where req: "Request example_runtime example_bytes_builder example_ctx ''POST'' ''widgets'' = Inr req"
    by (simp add: example_bytes_builder_def WithBodyBytes_def bench_defs bench_eval)
  obtain req' where req': "Request example_runtime example_builder example_ctx ''POST'' ''widgets'' = Inr req'"
    by (simp add: bench_defs bench_eval)
  have "req_Header req ''Content-Length'' = Some [''17'']"
    using Content_Length_is_body_length [OF req] len hs by (simp add: Itoa_17)
  moreover have "req_Header req' ''Content-Length'' = None"
    using Content_Length_is_body_length [OF req'] len(3) hs(2) by blast
  ultimately show ?thesis
    using len by (simp add: req req')
qed

lemma Request_URL:
  assumes "Parse p = Inr ref" and "Request rt r ctx m p = Inr req"
  shows "\<exists>q u. QueryUnescape (Encode (queryParams r)) = Inr q
           \<and> Parse (URL_String ((ResolveReference (url r) ref)\<lparr>RawQuery := q\<rparr>)) = Inr u
           \<and> req_URL req = u\<lparr>Host := removeEmptyPort (Host u)\<rparr>"
  using assms
  by (auto simp: Request_def NewRequestWithContext_def Let_def
      split: sum.splits option.splits if_splits)

lemma Parse_base: "Parse ''https://api.example.com/v1/'' = Inr example_base"
  by code_simp

lemma Parse_rel: "Parse ''widgets/42'' = Inr (URL_zero\<lparr>Path := ''widgets/42''\<rparr>)"
  by code_simp

lemma Parse_abs: "Parse ''/widgets/42'' = Inr (URL_zero\<lparr>Path := ''/widgets/42''\<rparr>)"
  by code_simp

lemma Resolve_rel:
  "ResolveReference example_base (URL_zero\<lparr>Path := ''widgets/42''\<rparr>)
     = URL_zero\<lparr>Scheme := ''https'', Host := ''api.example.com'', Path := ''/v1/widgets/42''\<rparr>"
  by code_simp

lemma Resolve_abs:
  "ResolveReference example_base (URL_zero\<lparr>Path := ''/widgets/42''\<rparr>)
     = URL_zero\<lparr>Scheme := ''https'', Host := ''api.example.com'', Path := ''/widgets/42''\<rparr>"
  by code_simp

lemma String_rel:
  "URL_String (URL_zero\<lparr>Scheme := ''https'', Host := ''api.example.com'', Path := ''/v1/widgets/42''\<rparr>)
     = ''https://api.example.com/v1/widgets/42''"
  by code_simp

lemma String_abs:
  "URL_String (URL_zero\<lparr>Scheme := ''https'', Host := ''api.example.com'', Path := ''/widgets/42''\<rparr>)
     = ''https://api.example.com/widgets/42''"
  by code_simp

lemma Parse_rel_url:
  "Parse ''https://api.example.com/v1/widgets/42''
     = Inr (URL_zero\<lparr>Scheme := ''https'', Host := ''api.example.com'', Path := ''/v1/widgets/42''\<rparr>)"
  by code_simp

lemma Parse_abs_url:
  "Parse ''https://api.example.com/widgets/42''
     = Inr (URL_zero\<lparr>Scheme := ''https'', Host := ''api.example.com'', Path := ''/widgets/42''\<rparr>)"
  by code_simp

lemma removeEmptyPort_example: "removeEmptyPort ''api.example.com'' = ''api.example.com''"
  by code_simp

lemma URL_zero_simps:
  "RawQuery URL_zero = []" "Host URL_zero = []" "Path URL_zero = []" "Scheme URL_zero = []"
  by (simp_all add: URL_zero_def)

lemma URL_zero_no_query:
  "(URL_zero\<lparr>Scheme := a, Host := b, Path := c\<rparr>)\<lparr>RawQuery := []\<rparr>
     = URL_zero\<lparr>Scheme := a, Host := b, Path := c\<rparr>"
  by (simp add: URL_zero_def)

lemma Request_example_rel:
  assumes "url r = example_base" and "queryParams r = Map.empty" and "validMethod m"
  shows "\<exists>req. Request rt r (Some c) m ''widgets/42'' = Inr req
     \<and> req_URL req
         = URL_zero\<lparr>Scheme := ''https'', Host := ''api.example.com'', Path := ''/v1/widgets/42''\<rparr>"
proof -
  have "m \<noteq> []" using assms(3) by (auto simp: validMethod_def)
  then show ?thesis
    using assms
    by (simp add: Request_def Parse_rel Resolve_rel URL_zero_no_query String_rel Parse_rel_url
        Encode_def QueryUnescape_def unescape_def NewRequestWithContext_def
        removeEmptyPort_example Let_def)
qed

lemma Request_example_abs:
  assumes "url r = example_base" and "queryParams r = Map.empty" and "validMethod m"
  shows "\<exists>req. Request rt r (Some c) m ''/widgets/42'' = Inr req
     \<and> req_URL req
         = URL_zero\<lparr>Scheme := ''https'', Host := ''api.example.com'', Path := ''/widgets/42''\<rparr>"
proof -
  have "m \<noteq> []" using assms(3) by (auto simp: validMethod_def)
  then show ?thesis
    using assms
    by (simp add: Request_def Parse_abs Resolve_abs URL_zero_no_query String_abs Parse_abs_url
        Encode_def QueryUnescape_def unescape_def NewRequestWithContext_def
        removeEmptyPort_example Let_def)
qed

text \<open>
  C7. The URL of a request that \<open>Request\<close> builds is the reference parsed from the call
  path, resolved against the base by \<open>ResolveReference\<close>, given the builder's query
  string, rendered, and parsed again by the request constructor. The base of the
  examples is what \<^verbatim>\<open>https://api.example.com/v1/\<close> parses to. Against it, for every
  builder without query parameters, every valid method and every context, the path
  \<^verbatim>\<open>widgets/42\<close> resolves to \<^verbatim>\<open>https://api.example.com/v1/widgets/42\<close>, which is the URL
  of the request, and the path \<^verbatim>\<open>/widgets/42\<close> gives a request URL whose path is
  \<^verbatim>\<open>/widgets/42\<close>: the base's \<^verbatim>\<open>/v1/\<close> is gone.
\<close>

theorem request_URL_resolves_reference:
  "(\<forall>ref req. Parse p = Inr ref \<and> Request rt r ctx m p = Inr req \<longrightarrow>
      (\<exists>q u. QueryUnescape (Encode (queryParams r)) = Inr q
         \<and> Parse (URL_String ((ResolveReference (url r) ref)\<lparr>RawQuery := q\<rparr>)) = Inr u
         \<and> req_URL req = u\<lparr>Host := removeEmptyPort (Host u)\<rparr>))
   \<and> Parse ''https://api.example.com/v1/'' = Inr example_base
   \<and> map_sum id (\<lambda>ref. URL_String (ResolveReference example_base ref)) (Parse ''widgets/42'')
       = Inr ''https://api.example.com/v1/widgets/42''
   \<and> map_sum id (\<lambda>ref. Path (ResolveReference example_base ref)) (Parse ''/widgets/42'')
       = Inr ''/widgets/42''
   \<and> (url r = example_base \<and> queryParams r = Map.empty \<and> validMethod m \<longrightarrow>
        (\<exists>req. Request rt r (Some c) m ''widgets/42'' = Inr req
           \<and> URL_String (req_URL req) = ''https://api.example.com/v1/widgets/42'')
      \<and> (\<exists>req. Request rt r (Some c) m ''/widgets/42'' = Inr req
           \<and> Path (req_URL req) = ''/widgets/42''
           \<and> URL_String (req_URL req) = ''https://api.example.com/widgets/42''))"
proof -
  have general: "\<forall>ref req. Parse p = Inr ref \<and> Request rt r ctx m p = Inr req \<longrightarrow>
      (\<exists>q u. QueryUnescape (Encode (queryParams r)) = Inr q
         \<and> Parse (URL_String ((ResolveReference (url r) ref)\<lparr>RawQuery := q\<rparr>)) = Inr u
         \<and> req_URL req = u\<lparr>Host := removeEmptyPort (Host u)\<rparr>)"
    using Request_URL by blast
  have resolved:
    "map_sum id (\<lambda>ref. URL_String (ResolveReference example_base ref)) (Parse ''widgets/42'')
       = Inr ''https://api.example.com/v1/widgets/42''"
    "map_sum id (\<lambda>ref. Path (ResolveReference example_base ref)) (Parse ''/widgets/42'')
       = Inr ''/widgets/42''"
    by (simp_all add: Parse_rel Parse_abs Resolve_rel Resolve_abs String_rel)
  have requests:
    "(\<exists>req. Request rt r (Some c) m ''widgets/42'' = Inr req
           \<and> URL_String (req_URL req) = ''https://api.example.com/v1/widgets/42'')
      \<and> (\<exists>req. Request rt r (Some c) m ''/widgets/42'' = Inr req
           \<and> Path (req_URL req) = ''/widgets/42''
           \<and> URL_String (req_URL req) = ''https://api.example.com/widgets/42'')"
    if "url r = example_base" "queryParams r = Map.empty" "validMethod m"
    using Request_example_rel [OF that, of rt c] Request_example_abs [OF that, of rt c]
    by (auto simp: String_rel String_abs)
  show ?thesis
    using general resolved requests Parse_base by blast
qed

theorem request_URL_resolves_reference_witness:
  "Parse ''widgets/42'' = Inr (URL_zero\<lparr>Path := ''widgets/42''\<rparr>)
   \<and> url example_builder = example_base
   \<and> queryParams example_builder = Map.empty
   \<and> validMethod ''GET''
   \<and> (case Request example_runtime example_builder example_ctx ''GET'' ''widgets/42'' of
        Inl e \<Rightarrow> False
      | Inr req \<Rightarrow> URL_String (req_URL req) = ''https://api.example.com/v1/widgets/42'')
   \<and> (case Request example_runtime example_builder example_ctx ''GET'' ''/widgets/42'' of
        Inl e \<Rightarrow> False
      | Inr req \<Rightarrow> Path (req_URL req) = ''/widgets/42'')"
proof -
  have pre: "url example_builder = example_base" "queryParams example_builder = Map.empty"
    "validMethod ''GET''"
    by (simp_all add: bench_defs validMethod_verbs)
  show ?thesis
    using request_URL_resolves_reference
      [where r = example_builder and rt = example_runtime and m = "''GET''" and c = "Ctx 0"
         and p = "''widgets/42''" and ctx = example_ctx]
      pre
    by (auto simp: example_ctx_def Parse_rel)
qed

subsection \<open>The query string\<close>

text \<open>
  Unescaping undoes \<open>QueryEscape\<close>: an escaped byte is \<open>%\<close> with its two hexadecimal
  digits or, for the space, a plus sign, and a byte left alone is neither \<open>%\<close> nor
  \<open>+\<close>. So the unescaping in \<open>Request\<close> cannot fail, and it gives the raw pairs.
\<close>

lemma nibble_cases:
  "n < 16 \<Longrightarrow> n \<in> {0, 1, 2, 3, 4, 5, 6, 7, 8, 9, 10, 11, 12, 13, 14, 15::nat}"
  by simp arith

lemma unhex_upperhex: "n < 16 \<Longrightarrow> unhex (upperhex ! n) = n"
  by (drule nibble_cases) (auto simp: upperhex_def unhex_def is_digit_def)

lemma ishex_upperhex: "n < 16 \<Longrightarrow> ishex (upperhex ! n)"
  by (drule nibble_cases) (auto simp: upperhex_def ishex_def is_digit_def)

lemma hex_roundtrip:
  "char_of (unhex (upperhex ! (of_char c div 16)) * 16 + unhex (upperhex ! (of_char c mod 16))) = c"
proof -
  have d: "(of_char c :: nat) div 16 < 16" by (simp add: less_mult_imp_div_less)
  have m: "(of_char c :: nat) mod 16 < 16" by simp
  show ?thesis by (simp add: unhex_upperhex [OF d] unhex_upperhex [OF m])
qed

lemma not_shouldEscape_query:
  "\<not> shouldEscape c encodeQueryComponent \<Longrightarrow> c \<noteq> CHR ''%'' \<and> c \<noteq> CHR ''+''"
  by (auto simp: shouldEscape_def is_lower_def is_upper_def is_digit_def)

lemma unescape_check_escape:
  "unescape_check (escape s encodeQueryComponent @ t) encodeQueryComponent
     = unescape_check t encodeQueryComponent"
proof (induction s)
  case Nil
  then show ?case by simp
next
  case (Cons c s)
  have d: "(of_char c :: nat) div 16 < 16" by (simp add: less_mult_imp_div_less)
  have m: "(of_char c :: nat) mod 16 < 16" by simp
  show ?case
    using Cons not_shouldEscape_query [of c] ishex_upperhex [OF d] ishex_upperhex [OF m]
    by simp
qed

lemma unescape_build_escape:
  "unescape_build (escape s encodeQueryComponent @ t) encodeQueryComponent
     = s @ unescape_build t encodeQueryComponent"
proof (induction s)
  case Nil
  then show ?case by simp
next
  case (Cons c s)
  show ?case
    using Cons not_shouldEscape_query [of c] hex_roundtrip [of c]
    by simp
qed

lemma unescape_check_pair:
  "unescape_check (QueryEscape k @ CHR ''='' # QueryEscape x @ t) encodeQueryComponent
     = unescape_check t encodeQueryComponent"
proof -
  have "unescape_check (CHR ''='' # QueryEscape x @ t) encodeQueryComponent
      = unescape_check t encodeQueryComponent"
    by (simp add: QueryEscape_def unescape_check_escape)
  then show ?thesis
    unfolding QueryEscape_def by (simp only: unescape_check_escape)
qed

lemma unescape_build_pair:
  "unescape_build (QueryEscape k @ CHR ''='' # QueryEscape x @ t) encodeQueryComponent
     = k @ CHR ''='' # x @ unescape_build t encodeQueryComponent"
proof -
  have "unescape_build (CHR ''='' # QueryEscape x @ t) encodeQueryComponent
      = CHR ''='' # x @ unescape_build t encodeQueryComponent"
    by (simp add: QueryEscape_def unescape_build_escape)
  then show ?thesis
    unfolding QueryEscape_def by (simp only: unescape_build_escape)
qed

lemma Encode_pairs_kv:
  "Encode_pairs v = map (\<lambda>(k, x). QueryEscape k @ CHR ''='' # QueryEscape x) (kv_pairs v)"
  by (simp add: Encode_pairs_def kv_pairs_def map_concat comp_def)

lemma raw_pairs_kv: "raw_pairs v = map (\<lambda>(k, x). k @ CHR ''='' # x) (kv_pairs v)"
  by (simp add: raw_pairs_def kv_pairs_def map_concat comp_def)

lemma unescape_join:
  "unescape_check (join_amp (map (\<lambda>(k, x). QueryEscape k @ CHR ''='' # QueryEscape x) kvs))
       encodeQueryComponent = None
   \<and> unescape_build (join_amp (map (\<lambda>(k, x). QueryEscape k @ CHR ''='' # QueryEscape x) kvs))
       encodeQueryComponent = join_amp (map (\<lambda>(k, x). k @ CHR ''='' # x) kvs)"
proof (induction kvs rule: induct_list012)
  case 1
  then show ?case by simp
next
  case (2 kv)
  obtain k x where kv: "kv = (k, x)" by (cases kv)
  show ?case
    using unescape_check_pair [of k x "[]"] unescape_build_pair [of k x "[]"] by (simp add: kv)
next
  case (3 kv kv' kvs)
  obtain k x where kv: "kv = (k, x)" by (cases kv)
  define rest where
    "rest = join_amp (map (\<lambda>(k, x). QueryEscape k @ CHR ''='' # QueryEscape x) (kv' # kvs))"
  define raw where "raw = join_amp (map (\<lambda>(k, x). k @ CHR ''='' # x) (kv' # kvs))"
  have ih: "unescape_check rest encodeQueryComponent = None"
    "unescape_build rest encodeQueryComponent = raw"
    using 3(2) by (simp_all add: rest_def raw_def)
  have amp: "unescape_check (CHR ''&'' # rest) encodeQueryComponent = None"
    "unescape_build (CHR ''&'' # rest) encodeQueryComponent = CHR ''&'' # raw"
    using ih by simp_all
  have l: "join_amp (map (\<lambda>(k, x). QueryEscape k @ CHR ''='' # QueryEscape x) (kv # kv' # kvs))
      = QueryEscape k @ CHR ''='' # QueryEscape x @ CHR ''&'' # rest"
    by (simp add: kv rest_def)
  have r: "join_amp (map (\<lambda>(k, x). k @ CHR ''='' # x) (kv # kv' # kvs))
      = k @ CHR ''='' # x @ CHR ''&'' # raw"
    by (simp add: kv raw_def)
  show ?case
    unfolding l r
    by (simp only: unescape_check_pair unescape_build_pair amp)
qed

lemma QueryUnescape_Encode: "QueryUnescape (Encode v) = Inr (raw_query v)"
proof (cases "dom v = {}")
  case True
  then show ?thesis
    by (simp add: Encode_def QueryUnescape_def unescape_def raw_query_def raw_pairs_def)
next
  case False
  then show ?thesis
    using unescape_join [of "kv_pairs v"]
    by (simp add: Encode_def QueryUnescape_def unescape_def raw_query_def Encode_pairs_kv
        raw_pairs_kv)
qed

lemma setPath_RawQuery: "setPath u p = Inr u' \<Longrightarrow> RawQuery u' = RawQuery u"
  by (auto simp: setPath_def split: sum.splits)

lemma setFragment_RawQuery: "setFragment u f = Inr u' \<Longrightarrow> RawQuery u' = RawQuery u"
  by (auto simp: setFragment_def split: sum.splits)

lemma parse_authority_path_RawQuery:
  "parse_authority_path u rest v = Inr u' \<Longrightarrow> RawQuery u' = RawQuery u"
  by (auto simp: parse_authority_path_def Let_def dest!: setPath_RawQuery
      split: if_splits sum.splits prod.splits)

lemma getScheme_scan_shape:
  assumes "getScheme_scan rawURL pre s = Inr (sch, rest)"
  shows "(sch = [] \<and> rest = rawURL)
       \<or> (\<exists>mid. s = mid @ CHR '':'' # rest \<and> CHR ''?'' \<notin> set mid)"
  using assms
proof (induction s arbitrary: pre)
  case Nil
  then show ?case by simp
next
  case (Cons c s)
  consider (alpha) "is_lower c \<or> is_upper c"
    | (digit) "\<not> (is_lower c \<or> is_upper c)" "is_digit c \<or> c = CHR ''+'' \<or> c = CHR ''-'' \<or> c = CHR ''.''"
    | (colon) "\<not> (is_lower c \<or> is_upper c)" "\<not> (is_digit c \<or> c = CHR ''+'' \<or> c = CHR ''-'' \<or> c = CHR ''.'')" "c = CHR '':''"
    | (other) "\<not> (is_lower c \<or> is_upper c)" "\<not> (is_digit c \<or> c = CHR ''+'' \<or> c = CHR ''-'' \<or> c = CHR ''.'')" "c \<noteq> CHR '':''"
    by blast
  then show ?case
  proof cases
    case alpha
    then have q: "c \<noteq> CHR ''?''" by (auto simp: is_lower_def is_upper_def)
    from alpha Cons.prems have "getScheme_scan rawURL (pre @ [c]) s = Inr (sch, rest)" by simp
    from Cons.IH [OF this] show ?thesis
    proof
      assume "sch = [] \<and> rest = rawURL" then show ?thesis by simp
    next
      assume "\<exists>mid. s = mid @ CHR '':'' # rest \<and> CHR ''?'' \<notin> set mid"
      then obtain mid where "s = mid @ CHR '':'' # rest" "CHR ''?'' \<notin> set mid" by blast
      then have "c # s = (c # mid) @ CHR '':'' # rest \<and> CHR ''?'' \<notin> set (c # mid)" using q by simp
      then show ?thesis by blast
    qed
  next
    case digit
    then have q: "c \<noteq> CHR ''?''" by (auto simp: is_digit_def)
    show ?thesis
    proof (cases "pre = []")
      case True
      with digit Cons.prems show ?thesis by simp
    next
      case False
      with digit Cons.prems have "getScheme_scan rawURL (pre @ [c]) s = Inr (sch, rest)" by simp
      from Cons.IH [OF this] show ?thesis
      proof
        assume "sch = [] \<and> rest = rawURL" then show ?thesis by simp
      next
        assume "\<exists>mid. s = mid @ CHR '':'' # rest \<and> CHR ''?'' \<notin> set mid"
        then obtain mid where "s = mid @ CHR '':'' # rest" "CHR ''?'' \<notin> set mid" by blast
        then have "c # s = (c # mid) @ CHR '':'' # rest \<and> CHR ''?'' \<notin> set (c # mid)" using q by simp
        then show ?thesis by blast
      qed
    qed
  next
    case colon
    with Cons.prems have "pre \<noteq> [] \<and> rest = s" by (auto split: if_splits)
    then have "c # s = [] @ CHR '':'' # rest \<and> CHR ''?'' \<notin> set []" using colon by simp
    then show ?thesis by blast
  next
    case other
    with Cons.prems show ?thesis by simp
  qed
qed

lemma Cut_after_prefix:
  "sep \<notin> set mid \<Longrightarrow> c \<noteq> sep \<Longrightarrow> fst (snd (Cut (mid @ c # rest) sep)) = fst (snd (Cut rest sep))"
  by (auto simp: Cut_def takeWhile_append dropWhile_append)

lemma getScheme_query:
  assumes "getScheme rawURL = Inr (sch, rest)"
  shows "fst (snd (Cut rest (CHR ''?''))) = fst (snd (Cut rawURL (CHR ''?'')))"
proof -
  from getScheme_scan_shape [OF assms [unfolded getScheme_def]]
  show ?thesis
  proof
    assume "sch = [] \<and> rest = rawURL" then show ?thesis by simp
  next
    assume "\<exists>mid. rawURL = mid @ CHR '':'' # rest \<and> CHR ''?'' \<notin> set mid"
    then obtain mid where "rawURL = mid @ CHR '':'' # rest" "CHR ''?'' \<notin> set mid" by blast
    then show ?thesis by (simp add: Cut_after_prefix)
  qed
qed

lemma force_query_empty:
  assumes "HasSuffix s ''?''" and "count_list s (CHR ''?'') = 1"
  shows "fst (snd (Cut s (CHR ''?''))) = []"
proof -
  from assms(1) have "drop (length s - 1) s = ''?''" by (simp add: HasSuffix_def)
  then have "s = take (length s - 1) s @ ''?''" by (metis append_take_drop_id)
  then obtain xs where s: "s = xs @ [CHR ''?'']" by blast
  with assms(2) have "count_list xs (CHR ''?'') = 0" by simp
  then have "CHR ''?'' \<notin> set xs" by (simp add: count_list_0_iff)
  then show ?thesis by (simp add: s Cut_def takeWhile_append dropWhile_append)
qed

lemma parse_RawQuery:
  assumes "parse s v = Inr u"
  shows "RawQuery u = fst (snd (Cut s (CHR ''?'')))"
proof (cases "s = ''*''")
  case True
  with assms show ?thesis by (auto simp: parse_def URL_zero_def Cut_def stringContainsCTLByte_def split: if_splits)
next
  case False
  from assms False obtain sch rest0 where gs: "getScheme s = Inr (sch, rest0)"
    by (auto simp: parse_def split: if_splits sum.splits)
  have q: "fst (snd (Cut rest0 (CHR ''?''))) = fst (snd (Cut s (CHR ''?'')))"
    by (rule getScheme_query [OF gs])
  show ?thesis
  proof (cases "HasSuffix rest0 ''?'' \<and> count_list rest0 (CHR ''?'') = 1")
    case True
    then have e: "fst (snd (Cut rest0 (CHR ''?''))) = []" by (simp add: force_query_empty)
    from assms False gs True have "RawQuery u = []"
      by (auto simp: parse_def Let_def URL_zero_def dest!: parse_authority_path_RawQuery
          split: if_splits)
    then show ?thesis using e q by simp
  next
    case F: False
    from assms False gs F have "RawQuery u = fst (snd (Cut rest0 (CHR ''?'')))"
      by (auto simp: parse_def Let_def URL_zero_def dest!: parse_authority_path_RawQuery
          split: if_splits)
    then show ?thesis using q by simp
  qed
qed

lemma Parse_RawQuery:
  assumes "Parse s = Inr u"
  shows "RawQuery u = fst (snd (Cut (fst (Cut s (CHR ''#''))) (CHR ''?'')))"
  using assms
  by (auto simp: Parse_def Let_def dest!: parse_RawQuery setFragment_RawQuery
      split: sum.splits if_splits)

text \<open>
  The request constructor parses the rendered URL again; what it reads as the query is
  the text between the first \<open>?\<close> and the first \<open>#\<close>.
\<close>

lemma takeWhile_all: "c \<notin> set s \<Longrightarrow> takeWhile (\<lambda>x. x \<noteq> c) s = s"
  by (induction s) auto

lemma dropWhile_all: "c \<notin> set s \<Longrightarrow> dropWhile (\<lambda>x. x \<noteq> c) s = []"
  by (induction s) auto

lemma Cut_fst: "fst (Cut s c) = takeWhile (\<lambda>x. x \<noteq> c) s"
  by (cases "c \<in> set s") (simp_all add: Cut_def takeWhile_all)

lemma Cut_snd: "fst (snd (Cut s c)) = tl (dropWhile (\<lambda>x. x \<noteq> c) s)"
  by (cases "c \<in> set s") (simp_all add: Cut_def dropWhile_all)

lemma takeWhile_prefix: "c \<notin> set h \<Longrightarrow> takeWhile (\<lambda>x. x \<noteq> c) (h @ t) = h @ takeWhile (\<lambda>x. x \<noteq> c) t"
  by (induction h) auto

lemma dropWhile_prefix: "c \<notin> set h \<Longrightarrow> dropWhile (\<lambda>x. x \<noteq> c) (h @ t) = dropWhile (\<lambda>x. x \<noteq> c) t"
  by (induction h) auto

lemma takeWhile_stop: "takeWhile (\<lambda>x. x \<noteq> c) (q @ c # t) = takeWhile (\<lambda>x. x \<noteq> c) q"
  by (induction q) auto

lemma EscapedPath_ignores_query:
  "EscapedPath (u\<lparr>ForceQuery := f, RawQuery := q, Fragment := g\<rparr>) = EscapedPath u"
  by (simp add: EscapedPath_def)

lemma String_authority_ignores_query:
  "String_authority (u\<lparr>ForceQuery := f, RawQuery := q, Fragment := g\<rparr>) = String_authority u"
  by (simp add: String_authority_def)

lemma String_path_ignores_query:
  "String_path (u\<lparr>ForceQuery := f, RawQuery := q, Fragment := g\<rparr>) buf = String_path u buf"
  by (simp add: String_path_def EscapedPath_ignores_query)

lemma URL_String_split:
  "URL_String u = String_head u
     @ (if ForceQuery u \<or> RawQuery u \<noteq> [] then CHR ''?'' # RawQuery u else [])
     @ (if Fragment u \<noteq> [] then CHR ''#'' # EscapedFragment u else [])"
  unfolding String_head_def URL_String_def Let_def
  by (simp add: String_path_ignores_query String_authority_ignores_query)

lemma String_head_RawQuery: "String_head (u\<lparr>RawQuery := q\<rparr>) = String_head u"
  by (simp add: String_head_def)

lemma query_of_rendering:
  assumes "CHR ''?'' \<notin> set h" and "CHR ''#'' \<notin> set h"
  shows "fst (snd (Cut (fst (Cut
            (h @ (if force \<or> q \<noteq> [] then CHR ''?'' # q else [])
               @ (if frag \<noteq> [] then CHR ''#'' # ef else [])) (CHR ''#''))) (CHR ''?'')))
         = takeWhile (\<lambda>c. c \<noteq> CHR ''#'') q"
proof -
  have tail: "takeWhile (\<lambda>c. c \<noteq> CHR ''#'') (t @ (if frag \<noteq> [] then CHR ''#'' # ef else []))
      = takeWhile (\<lambda>c. c \<noteq> CHR ''#'') t" for t
    by (cases "frag \<noteq> []") (simp_all add: takeWhile_stop)
  show ?thesis
  proof (cases "force \<or> q \<noteq> []")
    case True
    have "takeWhile (\<lambda>c. c \<noteq> CHR ''#'')
            (h @ (CHR ''?'' # q) @ (if frag \<noteq> [] then CHR ''#'' # ef else []))
          = h @ takeWhile (\<lambda>c. c \<noteq> CHR ''#'') (CHR ''?'' # q)"
      by (simp only: takeWhile_prefix [OF assms(2)] tail)
    then have a: "fst (Cut (h @ (CHR ''?'' # q) @ (if frag \<noteq> [] then CHR ''#'' # ef else []))
              (CHR ''#''))
          = h @ CHR ''?'' # takeWhile (\<lambda>c. c \<noteq> CHR ''#'') q"
      by (simp only: Cut_fst) simp
    have b: "fst (snd (Cut (h @ CHR ''?'' # t) (CHR ''?''))) = t" for t
      using assms(1) by (simp add: Cut_snd dropWhile_prefix)
    show ?thesis
      using True by (simp only: if_True a b)
  next
    case False
    have "takeWhile (\<lambda>c. c \<noteq> CHR ''#'') (h @ [] @ (if frag \<noteq> [] then CHR ''#'' # ef else []))
          = h @ takeWhile (\<lambda>c. c \<noteq> CHR ''#'') []"
      by (simp only: takeWhile_prefix [OF assms(2)] tail)
    then have a: "fst (Cut (h @ [] @ (if frag \<noteq> [] then CHR ''#'' # ef else [])) (CHR ''#'')) = h"
      by (simp only: Cut_fst) simp
    have b: "fst (snd (Cut h (CHR ''?''))) = []"
      using assms(1) by (simp add: Cut_snd dropWhile_all)
    from False have q: "q = []" by simp
    show ?thesis
      using False by (simp only: if_False a b) (simp add: q)
  qed
qed

lemma Request_parsed_URL:
  assumes "Parse p = Inr ref" and "Request rt r ctx m p = Inr req"
  shows "\<exists>u. Parse (URL_String ((ResolveReference (url r) ref)\<lparr>RawQuery := raw_query (queryParams r)\<rparr>))
              = Inr u
           \<and> req_URL req = u\<lparr>Host := removeEmptyPort (Host u)\<rparr>"
  using Request_URL [OF assms] by (simp add: QueryUnescape_Encode)

lemma Request_RawQuery:
  assumes "Parse p = Inr ref" and "Request rt r ctx m p = Inr req"
    and "CHR ''?'' \<notin> set (String_head (ResolveReference (url r) ref))"
    and "CHR ''#'' \<notin> set (String_head (ResolveReference (url r) ref))"
  shows "RawQuery (req_URL req) = takeWhile (\<lambda>c. c \<noteq> CHR ''#'') (raw_query (queryParams r))"
proof -
  define U where "U = (ResolveReference (url r) ref)\<lparr>RawQuery := raw_query (queryParams r)\<rparr>"
  from Request_parsed_URL [OF assms(1,2)] obtain u where u: "Parse (URL_String U) = Inr u"
    and req: "req_URL req = u\<lparr>Host := removeEmptyPort (Host u)\<rparr>"
    unfolding U_def by blast
  have h: "String_head U = String_head (ResolveReference (url r) ref)"
    by (simp add: U_def String_head_RawQuery)
  have "RawQuery u = fst (snd (Cut (fst (Cut (URL_String U) (CHR ''#''))) (CHR ''?'')))"
    by (rule Parse_RawQuery [OF u])
  also have "\<dots> = takeWhile (\<lambda>c. c \<noteq> CHR ''#'') (RawQuery U)"
    unfolding URL_String_split [of U] h using assms(3,4) by (rule query_of_rendering)
  finally show ?thesis by (simp add: req U_def)
qed

text \<open>
  Neither \<open>?\<close> nor \<open>#\<close> occurs in what \<open>URL_String\<close> writes before the query, as
  long as the scheme and the opaque part hold none: user, host and path are written
  escaped.
\<close>

lemma upperhex_no_mark: "n < 16 \<Longrightarrow> upperhex ! n \<noteq> CHR ''?'' \<and> upperhex ! n \<noteq> CHR ''#''"
  by (drule nibble_cases) (auto simp: upperhex_def)

lemma shouldEscape_marks:
  "shouldEscape (CHR ''?'') encodePath" "shouldEscape (CHR ''#'') encodePath"
  "shouldEscape (CHR ''?'') encodeHost" "shouldEscape (CHR ''#'') encodeHost"
  "shouldEscape (CHR ''?'') encodeUserPassword" "shouldEscape (CHR ''#'') encodeUserPassword"
  by (simp_all add: shouldEscape_def is_lower_def is_upper_def is_digit_def)

lemma escape_no_mark:
  assumes "shouldEscape x mode" and "x = CHR ''?'' \<or> x = CHR ''#''"
  shows "x \<notin> set (escape s mode)"
proof (induction s)
  case Nil
  then show ?case by simp
next
  case (Cons c s)
  have d: "(of_char c :: nat) div 16 < 16" by (simp add: less_mult_imp_div_less)
  have m: "(of_char c :: nat) mod 16 < 16" by simp
  show ?case
    using Cons assms upperhex_no_mark [OF d] upperhex_no_mark [OF m]
    by auto
qed

lemma EscapedPath_no_mark:
  assumes "x = CHR ''?'' \<or> x = CHR ''#''"
  shows "x \<notin> set (EscapedPath u)"
proof -
  have sh: "shouldEscape x encodePath" using assms shouldEscape_marks by auto
  have raw: "x \<notin> set (RawPath u)" if "validEncoded (RawPath u) encodePath"
  proof
    assume "x \<in> set (RawPath u)"
    with that have "x \<in> set (''!$&'' @ [CHR 0x27] @ ''()*+,;=:@[]%'') \<or> \<not> shouldEscape x encodePath"
      by (auto simp: validEncoded_def list_all_iff)
    with sh assms show False by auto
  qed
  have star: "x \<notin> set ''*''" using assms by auto
  show ?thesis
    using raw star escape_no_mark [OF sh assms, of "Path u"]
    by (auto simp: EscapedPath_def)
qed

lemma Userinfo_String_no_mark:
  assumes "x = CHR ''?'' \<or> x = CHR ''#''"
  shows "x \<notin> set (Userinfo_String ui)"
proof -
  have sh: "shouldEscape x encodeUserPassword" using assms shouldEscape_marks by auto
  show ?thesis
    using escape_no_mark [OF sh assms] assms
    by (auto simp: Userinfo_String_def split: option.splits)
qed

lemma String_authority_no_mark:
  assumes "x = CHR ''?'' \<or> x = CHR ''#''"
  shows "x \<notin> set (String_authority u)"
proof -
  have sh: "shouldEscape x encodeHost" using assms shouldEscape_marks by auto
  show ?thesis
    using escape_no_mark [OF sh assms] Userinfo_String_no_mark [OF assms] assms
    by (auto simp: String_authority_def split: option.splits)
qed

lemma String_path_no_mark:
  assumes "x = CHR ''?'' \<or> x = CHR ''#''" and "x \<notin> set buf"
  shows "x \<notin> set (String_path u buf)"
  using EscapedPath_no_mark [OF assms(1), of u] assms
  by (auto simp: String_path_def Let_def)

lemma String_head_no_mark:
  assumes "x = CHR ''?'' \<or> x = CHR ''#''" and "x \<notin> set (Scheme u)" and "x \<notin> set (Opaque u)"
  shows "x \<notin> set (String_head u)"
proof -
  let ?u = "u\<lparr>ForceQuery := False, RawQuery := [], Fragment := []\<rparr>"
  let ?buf0 = "if Scheme u \<noteq> [] then Scheme u @ '':'' else []"
  have b0: "x \<notin> set ?buf0" using assms by auto
  have "x \<notin> set (?buf0 @ String_authority u)"
    using b0 String_authority_no_mark [OF assms(1), of u] by simp
  then have "x \<notin> set (String_path u (?buf0 @ String_authority u))"
    by (rule String_path_no_mark [OF assms(1)])
  then show ?thesis
    using b0 assms(3)
    by (cases "Scheme u = []")
      (auto simp: String_head_def URL_String_def Let_def String_path_ignores_query
        String_authority_ignores_query)
qed

lemma setPath_Scheme_Opaque:
  "setPath u p = Inr u' \<Longrightarrow> Scheme u' = Scheme u \<and> Opaque u' = Opaque u"
  by (auto simp: setPath_def split: sum.splits)

lemma setFragment_Scheme_Opaque:
  "setFragment u f = Inr u' \<Longrightarrow> Scheme u' = Scheme u \<and> Opaque u' = Opaque u"
  by (auto simp: setFragment_def split: sum.splits)

lemma setPath_ignore_Scheme_Opaque:
  "Scheme (setPath_ignore u p) = Scheme u \<and> Opaque (setPath_ignore u p) = Opaque u"
  by (auto simp: setPath_ignore_def dest: setPath_Scheme_Opaque split: sum.splits)

lemma parse_authority_path_Scheme_Opaque:
  "parse_authority_path u rest v = Inr u' \<Longrightarrow> Scheme u' = Scheme u \<and> Opaque u' = Opaque u"
  by (auto simp: parse_authority_path_def Let_def dest!: setPath_Scheme_Opaque
      split: if_splits sum.splits prod.splits)

lemma ResolveReference_Scheme:
  "Scheme (ResolveReference u ref) = (if Scheme ref = [] then Scheme u else Scheme ref)"
  by (simp add: ResolveReference_def Let_def setPath_ignore_Scheme_Opaque)

lemma ResolveReference_Opaque:
  "Opaque (ResolveReference u ref) = Opaque ref \<or> Opaque (ResolveReference u ref) = Opaque u"
  by (simp add: ResolveReference_def Let_def setPath_ignore_Scheme_Opaque)

lemma of_char_bounds:
  "is_upper c \<Longrightarrow> 65 \<le> (of_char c :: nat) \<and> (of_char c :: nat) \<le> 90"
  "is_lower c \<Longrightarrow> 97 \<le> (of_char c :: nat) \<and> (of_char c :: nat) \<le> 122"
  "is_digit c \<Longrightarrow> 48 \<le> (of_char c :: nat) \<and> (of_char c :: nat) \<le> 57"
  by (simp_all add: is_upper_def is_lower_def is_digit_def less_eq_char_def)

lemma to_lower_no_mark:
  assumes "is_lower c \<or> is_upper c \<or> is_digit c \<or> c = CHR ''+'' \<or> c = CHR ''-'' \<or> c = CHR ''.''"
  shows "to_lower c \<noteq> CHR ''?'' \<and> to_lower c \<noteq> CHR ''#''"
proof (cases "is_upper c")
  case True
  then have b: "65 \<le> (of_char c :: nat)" "(of_char c :: nat) \<le> 90" using of_char_bounds(1) by auto
  have "(of_char (to_lower c) :: nat) = of_char c + 32"
    using True b by (simp add: to_lower_def)
  then have "(of_char (to_lower c) :: nat) \<ge> 97" using b by simp
  then show ?thesis by auto
next
  case False
  then have "to_lower c = c" by (simp add: to_lower_def)
  then show ?thesis
    using assms False of_char_bounds(2,3) [of c] by auto
qed

lemma getScheme_scan_chars:
  assumes "getScheme_scan rawURL pre s = Inr (sch, rest)"
    and "\<forall>c\<in>set pre. to_lower c \<noteq> CHR ''?'' \<and> to_lower c \<noteq> CHR ''#''"
  shows "\<forall>c\<in>set sch. to_lower c \<noteq> CHR ''?'' \<and> to_lower c \<noteq> CHR ''#''"
  using assms
proof (induction s arbitrary: pre)
  case Nil
  then show ?case by simp
next
  case (Cons c s)
  show ?case
  proof (cases "is_lower c \<or> is_upper c \<or> is_digit c \<or> c = CHR ''+'' \<or> c = CHR ''-'' \<or> c = CHR ''.''")
    case True
    then have ok: "to_lower c \<noteq> CHR ''?'' \<and> to_lower c \<noteq> CHR ''#''" by (rule to_lower_no_mark)
    show ?thesis
    proof (cases "getScheme_scan rawURL (pre @ [c]) s = Inr (sch, rest)")
      case T: True
      have "\<forall>c\<in>set (pre @ [c]). to_lower c \<noteq> CHR ''?'' \<and> to_lower c \<noteq> CHR ''#''"
        using Cons.prems(2) ok by simp
      from Cons.IH [OF T this] show ?thesis .
    next
      case False
      with True Cons.prems(1) have "sch = []" by (auto split: if_splits)
      then show ?thesis by simp
    qed
  next
    case False
    with Cons.prems show ?thesis by (auto split: if_splits)
  qed
qed

lemma getScheme_no_mark:
  assumes "getScheme s = Inr (sch, rest)" and "x = CHR ''?'' \<or> x = CHR ''#''"
  shows "x \<notin> set (map to_lower sch)"
  using getScheme_scan_chars [OF assms(1) [unfolded getScheme_def]] assms(2) by auto

lemma getScheme_rest_subset:
  assumes "getScheme s = Inr (sch, rest)"
  shows "set rest \<subseteq> set s"
  using getScheme_scan_shape [OF assms [unfolded getScheme_def]] by auto

lemma force_query_butlast:
  assumes "HasSuffix s ''?''" and "count_list s (CHR ''?'') = 1"
  shows "CHR ''?'' \<notin> set (butlast s)"
proof -
  from assms(1) have "drop (length s - 1) s = ''?''" by (simp add: HasSuffix_def)
  then have "s = take (length s - 1) s @ ''?''" by (metis append_take_drop_id)
  then obtain xs where s: "s = xs @ [CHR ''?'']" by blast
  with assms(2) have "count_list xs (CHR ''?'') = 0" by simp
  then have "CHR ''?'' \<notin> set xs" by (simp add: count_list_0_iff)
  then show ?thesis by (simp add: s)
qed

lemma Cut_fst_no_sep: "c \<notin> set (fst (Cut s c))"
  by (auto simp: Cut_fst dest: set_takeWhileD)

lemma Cut_fst_subset: "set (fst (Cut s c)) \<subseteq> set s"
  by (auto simp: Cut_fst dest: set_takeWhileD)

lemma parse_Scheme_Opaque:
  assumes "parse s v = Inr u" and "x = CHR ''?'' \<or> x = CHR ''#''" and "CHR ''#'' \<notin> set s"
  shows "x \<notin> set (Scheme u) \<and> x \<notin> set (Opaque u)"
proof (cases "s = ''*''")
  case True
  with assms(1) show ?thesis
    by (auto simp: parse_def URL_zero_def split: if_splits)
next
  case False
  from assms(1) False obtain sch rest0 where gs: "getScheme s = Inr (sch, rest0)"
    by (auto simp: parse_def split: if_splits sum.splits)
  define force where "force = (HasSuffix rest0 ''?'' \<and> count_list rest0 (CHR ''?'') = 1)"
  define rest where "rest = (if force then butlast rest0 else fst (Cut rest0 (CHR ''?'')))"
  have sub: "set rest \<subseteq> set s"
    using getScheme_rest_subset [OF gs] Cut_fst_subset [of rest0 "CHR ''?''"]
    by (auto simp: rest_def dest: in_set_butlastD)
  have "CHR ''?'' \<notin> set rest"
    using force_query_butlast [of rest0] Cut_fst_no_sep [of "CHR ''?''" rest0]
    by (auto simp: rest_def force_def)
  moreover have "CHR ''#'' \<notin> set rest" using sub assms(3) by auto
  ultimately have r: "x \<notin> set rest" using assms(2) by auto
  have sc: "x \<notin> set (map to_lower sch)" by (rule getScheme_no_mark [OF gs assms(2)])
  have "Scheme u = map to_lower sch \<and> (Opaque u = rest \<or> Opaque u = [])"
    using assms(1) False gs
    by (auto simp: parse_def Let_def URL_zero_def rest_def force_def
        dest!: parse_authority_path_Scheme_Opaque split: if_splits)
  then show ?thesis using r sc by auto
qed

lemma Parse_Scheme_Opaque:
  assumes "Parse s = Inr u" and "x = CHR ''?'' \<or> x = CHR ''#''"
  shows "x \<notin> set (Scheme u) \<and> x \<notin> set (Opaque u)"
proof -
  have h: "CHR ''#'' \<notin> set (fst (Cut s (CHR ''#'')))" by (rule Cut_fst_no_sep)
  from assms(1) obtain u0 where p: "parse (fst (Cut s (CHR ''#''))) False = Inr u0"
    and so: "Scheme u = Scheme u0 \<and> Opaque u = Opaque u0"
    by (auto simp: Parse_def Let_def dest!: setFragment_Scheme_Opaque split: sum.splits if_splits)
  from parse_Scheme_Opaque [OF p assms(2) h] so show ?thesis by simp
qed

lemma Request_Parse:
  "Request rt r ctx m p = Inr req \<Longrightarrow> \<exists>ref. Parse p = Inr ref"
  by (auto simp: Request_def split: sum.splits)

lemma ResolveReference_head_no_mark:
  assumes "Parse p = Inr ref" and "x = CHR ''?'' \<or> x = CHR ''#''"
    and "x \<notin> set (Scheme u)" and "x \<notin> set (Opaque u)"
  shows "x \<notin> set (String_head (ResolveReference u ref))"
proof -
  have ref: "x \<notin> set (Scheme ref)" "x \<notin> set (Opaque ref)"
    using Parse_Scheme_Opaque [OF assms(1,2)] by simp_all
  have "x \<notin> set (Scheme (ResolveReference u ref))"
    using ref(1) assms(3) by (simp add: ResolveReference_Scheme)
  moreover have "x \<notin> set (Opaque (ResolveReference u ref))"
    using ResolveReference_Opaque [of u ref] ref(2) assms(4) by auto
  ultimately show ?thesis by (rule String_head_no_mark [OF assms(2)])
qed

text \<open>
  The query string of the request, in general: for a base whose scheme and opaque part
  hold neither \<open>?\<close> nor \<open>#\<close> (every base that \<open>Parse\<close> gives is one), it is the
  unescaped encoding of the multimap up to its first \<open>#\<close>, so all of it when there is
  none.
\<close>

lemma Request_query_up_to_hash:
  assumes "Request rt r ctx m p = Inr req"
    and "CHR ''?'' \<notin> set (Scheme (url r))" and "CHR ''?'' \<notin> set (Opaque (url r))"
    and "CHR ''#'' \<notin> set (Scheme (url r))" and "CHR ''#'' \<notin> set (Opaque (url r))"
  shows "RawQuery (req_URL req) = takeWhile (\<lambda>c. c \<noteq> CHR ''#'') (raw_query (queryParams r))"
    and "CHR ''#'' \<notin> set (raw_query (queryParams r)) \<Longrightarrow>
           RawQuery (req_URL req) = raw_query (queryParams r)"
proof -
  from Request_Parse [OF assms(1)] obtain ref where ref: "Parse p = Inr ref" by blast
  have "CHR ''?'' \<notin> set (String_head (ResolveReference (url r) ref))"
    using ref assms(2,3) by (intro ResolveReference_head_no_mark) simp_all
  moreover have "CHR ''#'' \<notin> set (String_head (ResolveReference (url r) ref))"
    using ref assms(4,5) by (intro ResolveReference_head_no_mark) simp_all
  ultimately show a: "RawQuery (req_URL req)
      = takeWhile (\<lambda>c. c \<noteq> CHR ''#'') (raw_query (queryParams r))"
    by (rule Request_RawQuery [OF ref assms(1)])
  show "RawQuery (req_URL req) = raw_query (queryParams r)"
    if "CHR ''#'' \<notin> set (raw_query (queryParams r))"
    using a that by (simp add: takeWhile_all)
qed

lemma Request_query_parsed_base:
  assumes "Request rt r ctx m p = Inr req" and "Parse b = Inr (url r)"
  shows "RawQuery (req_URL req) = takeWhile (\<lambda>c. c \<noteq> CHR ''#'') (raw_query (queryParams r))"
  using Parse_Scheme_Opaque [OF assms(2)]
  by (intro Request_query_up_to_hash(1) [OF assms(1)]) simp_all

lemma hash_fields:
  "url example_hash_builder = example_base"
  "bodyBytes example_hash_builder = []"
  "queryParams example_hash_builder = [''a'' \<mapsto> [''#b'']]"
  by (simp_all add: example_hash_builder_def WithQueryParam_def Values_Add_def index_def bench_defs)

lemma raw_query_hash: "raw_query (queryParams example_hash_builder) = ''a=#b''"
  by (simp add: hash_fields raw_query_def raw_pairs_def index_def)

lemma Encode_hash: "Encode (queryParams example_hash_builder) = ''a=%23b''"
  by (simp add: hash_fields Encode_def Encode_pairs_def index_def QueryEscape_def shouldEscape_def
      is_lower_def is_upper_def is_digit_def upperhex_def)

lemma String_widgets_hash:
  "URL_String ((ResolveReference example_base (URL_zero\<lparr>Path := ''widgets''\<rparr>))\<lparr>RawQuery := ''a=#b''\<rparr>)
     = ''https://api.example.com/v1/widgets?a=#b''"
  by code_simp

lemma Parse_widgets_hash_url:
  "Parse ''https://api.example.com/v1/widgets?a=#b''
     = Inr (URL_zero\<lparr>Scheme := ''https'', Host := ''api.example.com'', Path := ''/v1/widgets'',
                    RawQuery := ''a='', Fragment := ''b''\<rparr>)"
  by code_simp

text \<open>
  C2. The text that \<open>Request\<close> assigns as the query of the resolved URL is the encoded
  multimap unescaped (\<open>QueryUnescape_Encode\<close>: always defined, and equal to the raw
  pairs), and it is the query of the request as long as it holds no number sign
  (\<open>Request_query_up_to_hash\<close>). The request is built from the rendered URL, though,
  and the constructor reads a number sign as the start of the fragment. With the value
  \<^verbatim>\<open>#b\<close> for the key \<open>a\<close> the encoding is \<^verbatim>\<open>a=%23b\<close>, unescaped \<^verbatim>\<open>a=#b\<close>, and the
  request's query string is \<^verbatim>\<open>a=\<close>, its fragment \<open>b\<close>: not the unescaped encoding.
\<close>

theorem query_value_with_hash_is_cut:
  "queryParams example_hash_builder = [''a'' \<mapsto> [''#b'']]
   \<and> Encode (queryParams example_hash_builder) = ''a=%23b''
   \<and> QueryUnescape (Encode (queryParams example_hash_builder)) = Inr ''a=#b''
   \<and> (case Request example_runtime example_hash_builder example_ctx ''GET'' ''widgets'' of
        Inl e \<Rightarrow> False
      | Inr req \<Rightarrow> RawQuery (req_URL req) = ''a='' \<and> Fragment (req_URL req) = ''b''
                 \<and> URL_String (req_URL req) = ''https://api.example.com/v1/widgets?a=#b'')"
proof -
  have q: "QueryUnescape (Encode (queryParams example_hash_builder)) = Inr ''a=#b''"
    by (simp add: QueryUnescape_Encode raw_query_hash)
  have s: "URL_String (URL_zero\<lparr>Scheme := ''https'', Host := ''api.example.com'', Path := ''/v1/widgets'',
                    RawQuery := ''a='', Fragment := ''b''\<rparr>) = ''https://api.example.com/v1/widgets?a=#b''"
    by code_simp
  have "Request example_runtime example_hash_builder example_ctx ''GET'' ''widgets''
      = Inr \<lparr>req_ctx = Ctx 0, req_Method = ''GET'',
              req_URL = URL_zero\<lparr>Scheme := ''https'', Host := ''api.example.com'',
                          Path := ''/v1/widgets'', RawQuery := ''a='', Fragment := ''b''\<rparr>,
              req_Header = range_Set (range_keys example_runtime (headers example_hash_builder))
                             (headers example_hash_builder) Map.empty,
              req_Body = [], req_ContentLength = 0, req_Host = ''api.example.com''\<rparr>"
    by (simp add: Request_def q [unfolded hash_fields] hash_fields Parse_widgets String_widgets_hash Parse_widgets_hash_url
        NewRequestWithContext_def validMethod_verbs example_ctx_def removeEmptyPort_example)
  then show ?thesis
    using q Encode_hash hash_fields(3) by (simp add: s)
qed

end
